theory Spec2Isabelle
  imports Main "HOL-Library.Word" "HOL-Library.Monad_Syntax"
begin

section \<open>JavaScript strings and JSON values\<close>

text \<open>
  A JavaScript string is a sequence of 16-bit code units.  String literals of the
  source are written \<open>js ''...''\<close>.
\<close>

type_synonym jschar = "16 word"
type_synonym jsstring = "jschar list"

definition js :: "string \<Rightarrow> jsstring" where
  "js s = map (\<lambda>c. of_nat (of_char c)) s"

text \<open>
  The values \<open>JSON.parse\<close> produces and \<open>JSON.stringify\<close> consumes.  Numbers
  are IEEE doubles in the runtime; here a number is represented by the text that
  \<open>JSON.stringify\<close> gives it, and the conversion of a number token to that text is
  taken from the platform.  An object is the list of its own properties in the order in
  which the runtime enumerates them.
\<close>

datatype json =
    JNull
  | JBool bool
  | JNum jsstring
  | JStr jsstring
  | JArr "json list"
  | JObj "(jsstring \<times> json) list"

subsection \<open>\<open>JSON.stringify\<close>\<close>

text \<open>
  \<open>JSON.stringify\<close> and \<open>JSON.parse\<close> belong to the runtime, not to the worker.
  They are written here after the ECMAScript definition: \<open>QuoteJSONString\<close>,
  \<open>SerializeJSONProperty\<close>, \<open>SerializeJSONArray\<close> and
  \<open>SerializeJSONObject\<close> for the first, the JSON grammar and the property order of
  ordinary objects for the second.
\<close>

text \<open>
  \<open>UnicodeEscape\<close>: a backslash, \<open>u\<close> and the four hexadecimal digits of the
  code unit, in lower case.
\<close>

definition hex_digit :: "nat \<Rightarrow> jschar" where
  "hex_digit d = of_nat (if d < 10 then 48 + d else 87 + d)"

definition UnicodeEscape :: "jschar \<Rightarrow> jsstring" where
  "UnicodeEscape c =
     [0x5C, 0x75,
      hex_digit (unat c div 4096 mod 16), hex_digit (unat c div 256 mod 16),
      hex_digit (unat c div 16 mod 16), hex_digit (unat c mod 16)]"

definition is_lead_surrogate :: "jschar \<Rightarrow> bool" where
  "is_lead_surrogate c \<longleftrightarrow> 0xD800 \<le> c \<and> c \<le> 0xDBFF"

definition is_trail_surrogate :: "jschar \<Rightarrow> bool" where
  "is_trail_surrogate c \<longleftrightarrow> 0xDC00 \<le> c \<and> c \<le> 0xDFFF"

text \<open>
  The escape of one code unit that is not part of a surrogate pair: the two-character
  escapes of the JSON table, a \<open>\u\<close> escape for the other control characters and for
  a lone surrogate, the code unit itself otherwise.
\<close>

definition quote_unit :: "jschar \<Rightarrow> jsstring" where
  "quote_unit c =
     (if c = 0x08 then [0x5C, 0x62]
      else if c = 0x09 then [0x5C, 0x74]
      else if c = 0x0A then [0x5C, 0x6E]
      else if c = 0x0C then [0x5C, 0x66]
      else if c = 0x0D then [0x5C, 0x72]
      else if c = 0x22 then [0x5C, 0x22]
      else if c = 0x5C then [0x5C, 0x5C]
      else if c < 0x20 \<or> is_lead_surrogate c \<or> is_trail_surrogate c then UnicodeEscape c
      else [c])"

fun quote_units :: "jsstring \<Rightarrow> jsstring" where
  "quote_units [] = []"
| "quote_units [c] = quote_unit c"
| "quote_units (c # d # cs) =
     (if is_lead_surrogate c \<and> is_trail_surrogate d then c # d # quote_units cs
      else quote_unit c @ quote_units (d # cs))"

definition QuoteJSONString :: "jsstring \<Rightarrow> jsstring" where
  "QuoteJSONString s = 0x22 # quote_units s @ [0x22]"

fun join :: "jsstring \<Rightarrow> jsstring list \<Rightarrow> jsstring" where
  "join sep [] = []"
| "join sep [x] = x"
| "join sep (x # y # ys) = x @ sep @ join sep (y # ys)"

text \<open>
  The text of a container whose parts are already serialised: \<open>opn\<close> and \<open>cls\<close>
  are the brackets, \<open>gap\<close> the indentation unit and \<open>indent\<close> the indentation of
  the enclosing line.
\<close>

definition wrap_parts :: "jschar \<Rightarrow> jschar \<Rightarrow> jsstring \<Rightarrow> jsstring \<Rightarrow> jsstring list \<Rightarrow> jsstring" where
  "wrap_parts opn cls gap indent parts =
     (if parts = [] then [opn, cls]
      else if gap = [] then opn # join [0x2C] parts @ [cls]
      else opn # 0x0A # (indent @ gap) @ join (0x2C # 0x0A # (indent @ gap)) parts
             @ 0x0A # indent @ [cls])"

fun SerializeJSONProperty :: "jsstring \<Rightarrow> jsstring \<Rightarrow> json \<Rightarrow> jsstring"
  and SerializeJSONArray :: "jsstring \<Rightarrow> jsstring \<Rightarrow> json list \<Rightarrow> jsstring list"
  and SerializeJSONObject :: "jsstring \<Rightarrow> jsstring \<Rightarrow> (jsstring \<times> json) list \<Rightarrow> jsstring list"
where
  "SerializeJSONProperty gap indent JNull = js ''null''"
| "SerializeJSONProperty gap indent (JBool b) = (if b then js ''true'' else js ''false'')"
| "SerializeJSONProperty gap indent (JNum n) = n"
| "SerializeJSONProperty gap indent (JStr s) = QuoteJSONString s"
| "SerializeJSONProperty gap indent (JArr xs) =
     wrap_parts 0x5B 0x5D gap indent (SerializeJSONArray gap (indent @ gap) xs)"
| "SerializeJSONProperty gap indent (JObj kvs) =
     wrap_parts 0x7B 0x7D gap indent (SerializeJSONObject gap (indent @ gap) kvs)"
| "SerializeJSONArray gap indent [] = []"
| "SerializeJSONArray gap indent (x # xs) =
     SerializeJSONProperty gap indent x # SerializeJSONArray gap indent xs"
| "SerializeJSONObject gap indent [] = []"
| "SerializeJSONObject gap indent ((k, v) # kvs) =
     (QuoteJSONString k @ 0x3A # (if gap = [] then [] else [0x20])
        @ SerializeJSONProperty gap indent v)
     # SerializeJSONObject gap indent kvs"

text \<open>
  \<open>JSON.stringify(value, null, space)\<close> for a numeric \<open>space\<close>: the gap is
  \<open>min 10 space\<close> spaces; \<open>JSON.stringify(value)\<close> is the case \<open>space = 0\<close>.
\<close>

definition JSON_stringify :: "json \<Rightarrow> nat \<Rightarrow> jsstring" where
  "JSON_stringify v space = SerializeJSONProperty (replicate (min 10 space) 0x20) [] v"

subsection \<open>\<open>JSON.parse\<close>\<close>

definition is_ws :: "jschar \<Rightarrow> bool" where
  "is_ws c \<longleftrightarrow> c = 0x09 \<or> c = 0x0A \<or> c = 0x0D \<or> c = 0x20"

fun skip_ws :: "jsstring \<Rightarrow> jsstring" where
  "skip_ws [] = []"
| "skip_ws (c # cs) = (if is_ws c then skip_ws cs else c # cs)"

definition is_digit :: "jschar \<Rightarrow> bool" where
  "is_digit c \<longleftrightarrow> 0x30 \<le> c \<and> c \<le> 0x39"

definition hex_value :: "jschar \<Rightarrow> nat option" where
  "hex_value c =
     (let n = unat c in
      if 48 \<le> n \<and> n \<le> 57 then Some (n - 48)
      else if 97 \<le> n \<and> n \<le> 102 then Some (n - 87)
      else if 65 \<le> n \<and> n \<le> 70 then Some (n - 55)
      else None)"

definition hex4 :: "jschar \<Rightarrow> jschar \<Rightarrow> jschar \<Rightarrow> jschar \<Rightarrow> jschar option" where
  "hex4 a b c d =
     (case (hex_value a, hex_value b, hex_value c, hex_value d) of
        (Some x3, Some x2, Some x1, Some x0) \<Rightarrow>
          Some (of_nat (4096 * x3 + 256 * x2 + 16 * x1 + x0))
      | _ \<Rightarrow> None)"

text \<open>The character after a backslash, for the escapes of one character.\<close>

definition unescape :: "jschar \<Rightarrow> jschar option" where
  "unescape e =
     (if e = 0x22 then Some 0x22
      else if e = 0x5C then Some 0x5C
      else if e = 0x2F then Some 0x2F
      else if e = 0x62 then Some 0x08
      else if e = 0x66 then Some 0x0C
      else if e = 0x6E then Some 0x0A
      else if e = 0x72 then Some 0x0D
      else if e = 0x74 then Some 0x09
      else None)"

definition cons_fst :: "'a \<Rightarrow> ('a list \<times> 'b) option \<Rightarrow> ('a list \<times> 'b) option" where
  "cons_fst x r = (case r of None \<Rightarrow> None | Some (xs, rest) \<Rightarrow> Some (x # xs, rest))"

text \<open>
  The characters of a string literal after its opening quote, up to the closing one:
  the decoded string and the input that follows.
\<close>

fun parse_chars :: "jsstring \<Rightarrow> (jsstring \<times> jsstring) option" where
  "parse_chars [] = None"
| "parse_chars (c # cs) =
     (if c = 0x22 then Some ([], cs)
      else if c = 0x5C then
        (case cs of
           [] \<Rightarrow> None
         | e # es \<Rightarrow>
             if e = 0x75 then
               (case es of
                  h1 # h2 # h3 # h4 # r \<Rightarrow>
                    (case hex4 h1 h2 h3 h4 of
                       None \<Rightarrow> None
                     | Some u \<Rightarrow> cons_fst u (parse_chars r))
                | _ \<Rightarrow> None)
             else
               (case unescape e of
                  None \<Rightarrow> None
                | Some d \<Rightarrow> cons_fst d (parse_chars es)))
      else if c < 0x20 then None
      else cons_fst c (parse_chars cs))"

text \<open>
  A number token: an optional minus, \<open>0\<close> or a digit sequence without leading zero,
  an optional fraction, an optional exponent.  The result is the token and the input
  that follows it.
\<close>

definition lex_digits :: "jsstring \<Rightarrow> (jsstring \<times> jsstring) option" where
  "lex_digits s = (if takeWhile is_digit s = [] then None
                   else Some (takeWhile is_digit s, dropWhile is_digit s))"

definition lex_int :: "jsstring \<Rightarrow> (jsstring \<times> jsstring) option" where
  "lex_int s =
     (case s of
        [] \<Rightarrow> None
      | c # cs \<Rightarrow>
          if c = 0x30 then Some ([c], cs)
          else if is_digit c then Some (c # takeWhile is_digit cs, dropWhile is_digit cs)
          else None)"

definition lex_frac :: "jsstring \<Rightarrow> (jsstring \<times> jsstring) option" where
  "lex_frac s =
     (case s of
        [] \<Rightarrow> Some ([], s)
      | c # cs \<Rightarrow>
          if c = 0x2E then cons_fst c (lex_digits cs) else Some ([], s))"

definition lex_exp :: "jsstring \<Rightarrow> (jsstring \<times> jsstring) option" where
  "lex_exp s =
     (case s of
        [] \<Rightarrow> Some ([], s)
      | c # cs \<Rightarrow>
          if c = 0x65 \<or> c = 0x45 then
            (case cs of
               [] \<Rightarrow> None
             | g # gs \<Rightarrow>
                 if g = 0x2B \<or> g = 0x2D then cons_fst c (cons_fst g (lex_digits gs))
                 else cons_fst c (lex_digits cs))
          else Some ([], s))"

definition lex_number :: "jsstring \<Rightarrow> (jsstring \<times> jsstring) option" where
  "lex_number s =
     (let (sign, s1) = (case s of c # cs \<Rightarrow> if c = 0x2D then ([c], cs) else ([], s) | [] \<Rightarrow> ([], s))
      in case lex_int s1 of
           None \<Rightarrow> None
         | Some (i, s2) \<Rightarrow>
             (case lex_frac s2 of
                None \<Rightarrow> None
              | Some (f, s3) \<Rightarrow>
                  (case lex_exp s3 of
                     None \<Rightarrow> None
                   | Some (e, s4) \<Rightarrow> Some (sign @ i @ f @ e, s4))))"

definition strip_prefix :: "jsstring \<Rightarrow> jsstring \<Rightarrow> jsstring option" where
  "strip_prefix pre s = (if take (length pre) s = pre then Some (drop (length pre) s) else None)"

text \<open>
  Property order of an ordinary object: the array indices (canonical decimal strings
  below \<open>2^32 - 1\<close>) in ascending order, then the other keys in the order of their
  creation.  Defining a key that exists replaces its value where it stands.
\<close>

definition digits_value :: "jsstring \<Rightarrow> int" where
  "digits_value s = foldl (\<lambda>a c. 10 * a + uint (c - 0x30)) 0 s"

definition array_index :: "jsstring \<Rightarrow> int option" where
  "array_index k =
     (case k of
        [] \<Rightarrow> None
      | c # cs \<Rightarrow>
          if list_all is_digit k \<and> (c \<noteq> 0x30 \<or> cs = []) \<and> digits_value k < 4294967295
          then Some (digits_value k) else None)"

fun insert_index :: "int \<Rightarrow> jsstring \<Rightarrow> 'v \<Rightarrow> (jsstring \<times> 'v) list \<Rightarrow> (jsstring \<times> 'v) list" where
  "insert_index i k v [] = [(k, v)]"
| "insert_index i k v ((k', v') # ps) =
     (case array_index k' of
        Some j \<Rightarrow> if j < i then (k', v') # insert_index i k v ps else (k, v) # (k', v') # ps
      | None \<Rightarrow> (k, v) # (k', v') # ps)"

definition CreateDataProperty :: "(jsstring \<times> 'v) list \<Rightarrow> jsstring \<times> 'v \<Rightarrow> (jsstring \<times> 'v) list" where
  "CreateDataProperty ps kv =
     (case kv of (k, v) \<Rightarrow>
        if k \<in> fst ` set ps then map (\<lambda>(k', v'). if k' = k then (k', v) else (k', v')) ps
        else (case array_index k of
                Some i \<Rightarrow> insert_index i k v ps
              | None \<Rightarrow> ps @ [(k, v)]))"

text \<open>
  The recursive descent.  \<open>parse_value\<close> reads one value, \<open>parse_elements\<close> the
  elements of a non-empty array up to its closing bracket, \<open>parse_members\<close> the
  members of a non-empty object up to its closing brace.  The first argument bounds the
  number of nested calls; a bound above the length of the input is never the reason for
  a failure (lemma \<open>parse_value_fuel_enough\<close>).
\<close>

fun parse_value :: "(jsstring \<Rightarrow> jsstring) \<Rightarrow> nat \<Rightarrow> jsstring \<Rightarrow> (json \<times> jsstring) option"
  and parse_elements :: "(jsstring \<Rightarrow> jsstring) \<Rightarrow> nat \<Rightarrow> jsstring \<Rightarrow> (json list \<times> jsstring) option"
  and parse_members :: "(jsstring \<Rightarrow> jsstring) \<Rightarrow> nat \<Rightarrow> jsstring \<Rightarrow> ((jsstring \<times> json) list \<times> jsstring) option"
where
  "parse_value num 0 s = None"
| "parse_value num (Suc n) s =
     (case skip_ws s of
        [] \<Rightarrow> None
      | c # cs \<Rightarrow>
          if c = 0x22 then
            (case parse_chars cs of None \<Rightarrow> None | Some (str, r) \<Rightarrow> Some (JStr str, r))
          else if c = 0x5B then
            (case skip_ws cs of
               [] \<Rightarrow> None
             | d # ds \<Rightarrow>
                 if d = 0x5D then Some (JArr [], ds)
                 else (case parse_elements num n cs of
                         None \<Rightarrow> None
                       | Some (vs, r) \<Rightarrow> Some (JArr vs, r)))
          else if c = 0x7B then
            (case skip_ws cs of
               [] \<Rightarrow> None
             | d # ds \<Rightarrow>
                 if d = 0x7D then Some (JObj [], ds)
                 else (case parse_members num n cs of
                         None \<Rightarrow> None
                       | Some (kvs, r) \<Rightarrow> Some (JObj (foldl CreateDataProperty [] kvs), r)))
          else if c = 0x6E then
            (case strip_prefix (js ''null'') (c # cs) of
               None \<Rightarrow> None | Some r \<Rightarrow> Some (JNull, r))
          else if c = 0x74 then
            (case strip_prefix (js ''true'') (c # cs) of
               None \<Rightarrow> None | Some r \<Rightarrow> Some (JBool True, r))
          else if c = 0x66 then
            (case strip_prefix (js ''false'') (c # cs) of
               None \<Rightarrow> None | Some r \<Rightarrow> Some (JBool False, r))
          else
            (case lex_number (c # cs) of
               None \<Rightarrow> None | Some (tok, r) \<Rightarrow> Some (JNum (num tok), r)))"
| "parse_elements num 0 s = None"
| "parse_elements num (Suc n) s =
     (case parse_value num n s of
        None \<Rightarrow> None
      | Some (v, r) \<Rightarrow>
          (case skip_ws r of
             [] \<Rightarrow> None
           | c # cs \<Rightarrow>
               if c = 0x2C then cons_fst v (parse_elements num n cs)
               else if c = 0x5D then Some ([v], cs)
               else None))"
| "parse_members num 0 s = None"
| "parse_members num (Suc n) s =
     (case skip_ws s of
        [] \<Rightarrow> None
      | q # qs \<Rightarrow>
          if q \<noteq> 0x22 then None
          else
            (case parse_chars qs of
               None \<Rightarrow> None
             | Some (k, r) \<Rightarrow>
                 (case skip_ws r of
                    [] \<Rightarrow> None
                  | c # cs \<Rightarrow>
                      if c \<noteq> 0x3A then None
                      else
                        (case parse_value num n cs of
                           None \<Rightarrow> None
                         | Some (v, r') \<Rightarrow>
                             (case skip_ws r' of
                                [] \<Rightarrow> None
                              | d # ds \<Rightarrow>
                                  if d = 0x2C then cons_fst (k, v) (parse_members num n ds)
                                  else if d = 0x7D then Some ([(k, v)], ds)
                                  else None)))))"

text \<open>
  \<open>JSON.parse(text)\<close>: one value, with white space around it and nothing else.
  \<open>None\<close> stands for the \<open>SyntaxError\<close> the runtime throws; \<open>num\<close> is the
  platform's conversion of a number token.
\<close>

definition JSON_parse :: "(jsstring \<Rightarrow> jsstring) \<Rightarrow> jsstring \<Rightarrow> json option" where
  "JSON_parse num s =
     (case parse_value num (Suc (length s)) s of
        None \<Rightarrow> None
      | Some (v, r) \<Rightarrow> if skip_ws r = [] then Some v else None)"

section \<open>The platform\<close>

text \<open>
  A value raised by \<open>throw\<close> or by a rejected promise: an instance of \<open>Error\<close>
  with its message, or any other value.
\<close>

datatype thrown = Error jsstring | NonError

text \<open>The completion the chat service returns, as far as the worker reads it.\<close>

record chat_message =
  refusal :: "jsstring option"
  content :: "jsstring option"

record choice =
  finish_reason :: jsstring
  message :: chat_message

record chat_completion =
  choices :: "choice list"

record create_params =
  response_format :: json
  store :: bool
  messages :: "(jsstring \<times> jsstring) list"
  model :: jsstring
  temperature :: nat
  max_tokens :: nat
  top_p :: nat

text \<open>
  An \<open>OpenAI\<close> client is its method \<open>chat.completions.create\<close>: the awaited call
  yields a completion or throws.
\<close>

type_synonym openai = "create_params \<Rightarrow> thrown + chat_completion"

text \<open>
  The answer of the image search as the worker types it (\<open>GoogleSearchResponse\<close>):
  \<open>items\<close> is optional.
\<close>

record image =
  thumbnailLink :: jsstring

record item =
  link :: jsstring
  image :: image

record GoogleSearchResponse =
  items :: "item list option"

text \<open>
  The response of the outbound \<open>fetch\<close>: its status and what awaiting \<open>json()\<close>
  yields.  \<open>ok\<close> is the status being in the range 200 to 299.
\<close>

record upstream_response =
  upstream_status :: nat
  upstream_json :: "thrown + GoogleSearchResponse"

definition ok :: "upstream_response \<Rightarrow> bool" where
  "ok r \<longleftrightarrow> 200 \<le> upstream_status r \<and> upstream_status r < 300"

text \<open>
  What the worker takes from its runtime and from the two libraries it imports, and what
  is not decided by its own text: the text \<open>JSON.stringify\<close> gives the number that a
  number token denotes, the messages of the errors the runtime raises,
  \<open>encodeURIComponent\<close>, the constructor of the \<open>OpenAI\<close> client (from the base
  URL and the API key) and \<open>fetch\<close> of \<open>node-fetch\<close>.
\<close>

record platform =
  NumberText :: "jsstring \<Rightarrow> jsstring"
  SyntaxError_message :: "jsstring \<Rightarrow> jsstring"
  TypeError_message :: "jsstring \<Rightarrow> jsstring"
  encodeURIComponent :: "jsstring \<Rightarrow> thrown + jsstring"
  OpenAI :: "jsstring \<Rightarrow> jsstring \<Rightarrow> openai"
  node_fetch :: "jsstring \<Rightarrow> thrown + upstream_response"

record env =
  GITHUB_TOKEN :: jsstring
  GOOGLE_API_KEY :: jsstring
  GOOGLE_CSE_ID :: jsstring

subsection \<open>Responses\<close>

text \<open>
  A \<open>Headers\<close> object keeps its entries in an internal list, with the names in lower
  case, and gives them out through its methods.  Object spread copies the own enumerable
  properties of its operand; a \<open>Headers\<close> object has none, so spreading it into an
  object literal (\<open>{...response.headers}\<close>) contributes nothing.
\<close>

datatype Headers = Headers "(jsstring \<times> jsstring) list"

definition to_lower :: "jschar \<Rightarrow> jschar" where
  "to_lower c = (if 0x41 \<le> c \<and> c \<le> 0x5A then c + 0x20 else c)"

fun Headers_get :: "Headers \<Rightarrow> jsstring \<Rightarrow> jsstring option" where
  "Headers_get (Headers hs) name = map_of hs (map to_lower name)"

fun own_enumerable_properties :: "Headers \<Rightarrow> (jsstring \<times> jsstring) list" where
  "own_enumerable_properties (Headers hs) = []"

text \<open>
  \<open>{...a, ...b}\<close> on the properties of two objects: the properties of \<open>a\<close>, each
  key of \<open>b\<close> replacing the value of an equal key or coming after.
\<close>

definition spread :: "(jsstring \<times> jsstring) list \<Rightarrow> (jsstring \<times> jsstring) list \<Rightarrow> (jsstring \<times> jsstring) list" where
  "spread a b = foldl CreateDataProperty a b"

record response =
  status :: nat
  headers :: Headers
  body :: jsstring

text \<open>
  The body given to \<open>new Response\<close>: a string, or the stream that is the \<open>body\<close>
  of another response.  A string body without a content type in the given headers gets
  the content type of plain text; a stream gets none.  The status is 200 when the
  options name none.
\<close>

datatype body_init = BodyString jsstring | BodyStream jsstring

fun body_text :: "body_init \<Rightarrow> jsstring" where
  "body_text (BodyString s) = s"
| "body_text (BodyStream s) = s"

definition Response_new :: "body_init \<Rightarrow> nat option \<Rightarrow> (jsstring \<times> jsstring) list \<Rightarrow> response" where
  "Response_new b st init =
     (let hs = map (\<lambda>(k, v). (map to_lower k, v)) init;
          hs' = (case b of
                   BodyString _ \<Rightarrow>
                     if map_of hs (js ''content-type'') = None
                     then hs @ [(js ''content-type'', js ''text/plain;charset=UTF-8'')]
                     else hs
                 | BodyStream _ \<Rightarrow> hs)
      in \<lparr>status = (case st of None \<Rightarrow> 200 | Some c \<Rightarrow> c),
          headers = Headers hs',
          body = body_text b\<rparr>)"

section \<open>The worker\<close>

definition schema :: json where
  "schema =
     JObj [
       (js ''name'', JStr (js ''recipe'')),
       (js ''schema'', JObj [
          (js ''type'', JStr (js ''object'')),
          (js ''properties'', JObj [
             (js ''name'', JObj [
                (js ''type'', JStr (js ''string'')),
                (js ''description'', JStr (js ''The name of the recipe.''))]),
             (js ''description'', JObj [
                (js ''type'', JStr (js ''string'')),
                (js ''description'', JStr (js ''A brief description of the recipe.''))]),
             (js ''ingredients'', JObj [
                (js ''type'', JStr (js ''array'')),
                (js ''description'', JStr (js ''A list of ingredients for the recipe.'')),
                (js ''items'', JObj [
                   (js ''type'', JStr (js ''object'')),
                   (js ''properties'', JObj [
                      (js ''name'', JObj [
                         (js ''type'', JStr (js ''string'')),
                         (js ''description'', JStr (js ''The name of the ingredient.''))]),
                      (js ''amount'', JObj [
                         (js ''type'', JStr (js ''string'')),
                         (js ''description'', JStr (js ''The amount of the ingredient required.''))]),
                      (js ''description'', JObj [
                         (js ''type'', JStr (js ''string'')),
                         (js ''description'', JStr (js ''A description of the ingredient.''))])]),
                   (js ''required'',
                      JArr [JStr (js ''name''), JStr (js ''amount''), JStr (js ''description'')]),
                   (js ''additionalProperties'', JBool False)])]),
             (js ''instructions'', JObj [
                (js ''type'', JStr (js ''array'')),
                (js ''description'', JStr (js ''Step-by-step instructions to prepare the recipe.'')),
                (js ''items'', JObj [
                   (js ''type'', JStr (js ''string'')),
                   (js ''description'',
                      JStr (js ''A single step in the recipe's preparation.''))])])]),
          (js ''required'',
             JArr [JStr (js ''name''), JStr (js ''description''), JStr (js ''ingredients''),
                   JStr (js ''instructions'')]),
          (js ''additionalProperties'', JBool False)]),
       (js ''strict'', JBool True)]"

text \<open>The truth value of a \<open>string | null\<close>: \<open>null\<close> and the empty string are false.\<close>

fun truthy :: "jsstring option \<Rightarrow> bool" where
  "truthy None = False"
| "truthy (Some s) = (s \<noteq> [])"

text \<open>The string that a \<open>string | null\<close> is converted to where a string is needed.\<close>

fun string_of :: "jsstring option \<Rightarrow> jsstring" where
  "string_of None = js ''null''"
| "string_of (Some s) = s"

definition json_headers :: "(jsstring \<times> jsstring) list" where
  "json_headers = [(js ''Content-Type'', js ''application/json'')]"

text \<open>
  The \<open>catch\<close> clause of both handlers:
  \<open>{ error: e instanceof Error ? e.message : 'An unknown error occurred' }\<close>,
  serialised with an indentation of 2, status left to its default.
\<close>

definition error_message :: "thrown \<Rightarrow> jsstring" where
  "error_message e = (case e of Error m \<Rightarrow> m | NonError \<Rightarrow> js ''An unknown error occurred'')"

definition catch_response :: "thrown \<Rightarrow> response" where
  "catch_response e =
     Response_new
       (BodyString (JSON_stringify (JObj [(js ''error'', JStr (error_message e))]) 2))
       None json_headers"

subsection \<open>\<open>getRecipeFromAI\<close>\<close>

definition recipe_params :: "jsstring \<Rightarrow> create_params" where
  "recipe_params foodName =
     \<lparr>response_format = JObj [(js ''type'', JStr (js ''json_schema'')), (js ''json_schema'', schema)],
      store = True,
      messages =
        [(js ''system'', js ''please give me a promising recipe, it can be from famous chefs. it should be detailed with all tips and tricks.''),
         (js ''user'', js ''recipe of '' @ foodName)],
      model = js ''gpt-4o'',
      temperature = 1,
      max_tokens = 4096,
      top_p = 1\<rparr>"

text \<open>
  The \<open>try\<close> block: \<open>Inl\<close> is a value thrown inside it, \<open>Inr\<close> the response it
  returns.  Reading \<open>choices[0].finish_reason\<close> of a completion without choices throws
  a \<open>TypeError\<close>; \<open>JSON.parse\<close> of a text that is not JSON throws a
  \<open>SyntaxError\<close>.
\<close>

definition getRecipeFromAI_try :: "platform \<Rightarrow> openai \<Rightarrow> jsstring \<Rightarrow> thrown + response" where
  "getRecipeFromAI_try p openai foodName =
     (case openai (recipe_params foodName) of
        Inl e \<Rightarrow> Inl e
      | Inr chatCompletion \<Rightarrow>
          (case choices chatCompletion of
             [] \<Rightarrow> Inl (Error (TypeError_message p (js ''finish_reason'')))
           | choice0 # _ \<Rightarrow>
               if finish_reason choice0 = js ''length'' then Inl (Error (js ''Incomplete response''))
               else
                 let recipeResponse = message choice0 in
                 if truthy (refusal recipeResponse) then
                   Inl (Error (js ''Model refused to provide a recipe''))
                 else if truthy (content recipeResponse) then
                   (case JSON_parse (NumberText p) (string_of (content recipeResponse)) of
                      None \<Rightarrow>
                        Inl (Error (SyntaxError_message p (string_of (content recipeResponse))))
                    | Some v \<Rightarrow>
                        Inr (Response_new (BodyString (JSON_stringify v 2))
                               None json_headers))
                 else Inl (Error (js ''No response content''))))"

definition getRecipeFromAI :: "platform \<Rightarrow> openai \<Rightarrow> jsstring option \<Rightarrow> response" where
  "getRecipeFromAI p openai foodName =
     (if \<not> truthy foodName then
        Response_new
          (BodyString (JSON_stringify
             (JObj [(js ''error'', JStr (js ''foodName parameter is required''))]) 0))
          (Some 400) json_headers
      else
        (case getRecipeFromAI_try p openai (string_of foodName) of
           Inr r \<Rightarrow> r
         | Inl e \<Rightarrow> catch_response e))"

subsection \<open>\<open>getImageFromWeb\<close>\<close>

text \<open>The decimal numeral of a status, as a template literal prints it.\<close>

fun decimal :: "nat \<Rightarrow> jsstring" where
  "decimal n = (if n < 10 then [0x30 + of_nat n]
                else decimal (n div 10) @ [0x30 + of_nat (n mod 10)])"

definition search_url :: "env \<Rightarrow> jsstring \<Rightarrow> jsstring" where
  "search_url e q =
     js ''https://www.googleapis.com/customsearch/v1?key='' @ GOOGLE_API_KEY e
       @ js ''&cx='' @ GOOGLE_CSE_ID e @ js ''&q='' @ q @ js ''&searchType=image''"

definition getImageFromWeb_try :: "platform \<Rightarrow> jsstring \<Rightarrow> env \<Rightarrow> thrown + response" where
  "getImageFromWeb_try p foodOrIngName e =
     (case encodeURIComponent p foodOrIngName of
        Inl x \<Rightarrow> Inl x
      | Inr q \<Rightarrow>
          (case node_fetch p (search_url e q) of
             Inl x \<Rightarrow> Inl x
           | Inr response \<Rightarrow>
               if \<not> ok response then
                 Inl (Error (js ''Google API error: '' @ decimal (upstream_status response)))
               else
                 (case upstream_json response of
                    Inl x \<Rightarrow> Inl x
                  | Inr data \<Rightarrow>
                      (case items data of
                         None \<Rightarrow> Inl (Error (js ''No results found on Google''))
                       | Some [] \<Rightarrow> Inl (Error (js ''No results found on Google''))
                       | Some (first # _) \<Rightarrow>
                           Inr (Response_new
                                  (BodyString (JSON_stringify
                                     (JObj [(js ''url'', JStr (link first)),
                                            (js ''thumb'', JStr (thumbnailLink (image first)))]) 2))
                                  None json_headers)))))"

definition getImageFromWeb :: "platform \<Rightarrow> jsstring option \<Rightarrow> env \<Rightarrow> response" where
  "getImageFromWeb p foodOrIngName e =
     (if \<not> truthy foodOrIngName then
        Response_new
          (BodyString (JSON_stringify
             (JObj [(js ''error'', JStr (js ''foodOrIngName parameter is required''))]) 0))
          (Some 400) json_headers
      else
        (case getImageFromWeb_try p (string_of foodOrIngName) e of
           Inr r \<Rightarrow> r
         | Inl x \<Rightarrow> catch_response x))"

subsection \<open>The router\<close>

text \<open>
  The request as the router reads it: the path and the query pairs of
  \<open>new URL(request.url)\<close>.  \<open>searchParams.get\<close> is the value of the first pair with
  the name, or \<open>null\<close>.  The method is not read.
\<close>

record request =
  http_method :: jsstring
  pathname :: jsstring
  searchParams :: "(jsstring \<times> jsstring) list"

definition corsHeaders :: "(jsstring \<times> jsstring) list" where
  "corsHeaders =
     [(js ''Access-Control-Allow-Origin'', js ''*''),
      (js ''Access-Control-Allow-Methods'', js ''GET,HEAD,POST,OPTIONS''),
      (js ''Access-Control-Allow-Headers'', js ''Content-Type'')]"

definition fetch :: "platform \<Rightarrow> request \<Rightarrow> env \<Rightarrow> response" where
  "fetch p req e =
     (if pathname req = js ''/getRecipe'' then
        (let openai = OpenAI p (js ''https://models.inference.ai.azure.com'') (GITHUB_TOKEN e);
             foodName = map_of (searchParams req) (js ''foodName'');
             response = getRecipeFromAI p openai foodName
         in Response_new (BodyStream (body response)) None
              (spread corsHeaders (own_enumerable_properties (headers response))))
      else if pathname req = js ''/getImage'' then
        (let foodOrIngName = map_of (searchParams req) (js ''foodOrIngName'');
             response = getImageFromWeb p foodOrIngName e
         in Response_new (BodyStream (body response)) None
              (spread corsHeaders (own_enumerable_properties (headers response))))
      else Response_new (BodyString (js ''Not found'')) (Some 404) corsHeaders)"

subsection \<open>The variant without a router\<close>

text \<open>
  The second worker of the file answers every path with the recipe handler.  Its
  \<open>getRecipeFromAI\<close> returns the parsed content, or the object \<open>{error: message}\<close>,
  and \<open>fetch\<close> validates the parameter itself and returns its own responses.
\<close>

definition schema_single :: json where
  "schema_single =
     JObj [
       (js ''name'', JStr (js ''recipe'')),
       (js ''schema'', JObj [
          (js ''type'', JStr (js ''object'')),
          (js ''properties'', JObj [
             (js ''name'', JObj [
                (js ''type'', JStr (js ''string'')),
                (js ''description'', JStr (js ''The name of the recipe.''))]),
             (js ''imgUrl'', JObj [
                (js ''type'', JStr (js ''string'')),
                (js ''description'', JStr (js ''The URL of the recipe image.''))]),
             (js ''description'', JObj [
                (js ''type'', JStr (js ''string'')),
                (js ''description'', JStr (js ''A brief description of the recipe.''))]),
             (js ''ingredients'', JObj [
                (js ''type'', JStr (js ''array'')),
                (js ''description'', JStr (js ''A list of ingredients for the recipe.'')),
                (js ''items'', JObj [
                   (js ''type'', JStr (js ''object'')),
                   (js ''properties'', JObj [
                      (js ''name'', JObj [
                         (js ''type'', JStr (js ''string'')),
                         (js ''description'', JStr (js ''The name of the ingredient.''))]),
                      (js ''imgUrl'', JObj [
                         (js ''type'', JStr (js ''string'')),
                         (js ''description'', JStr (js ''The URL of the ingredient image.''))]),
                      (js ''amount'', JObj [
                         (js ''type'', JStr (js ''string'')),
                         (js ''description'', JStr (js ''The amount of the ingredient required.''))]),
                      (js ''description'', JObj [
                         (js ''type'', JStr (js ''string'')),
                         (js ''description'', JStr (js ''A description of the ingredient.''))])]),
                   (js ''required'',
                      JArr [JStr (js ''name''), JStr (js ''imgUrl''), JStr (js ''amount''),
                            JStr (js ''description'')]),
                   (js ''additionalProperties'', JBool False)])]),
             (js ''instructions'', JObj [
                (js ''type'', JStr (js ''string'')),
                (js ''description'', JStr (js ''The instructions for preparing the recipe.''))])]),
          (js ''required'',
             JArr [JStr (js ''name''), JStr (js ''imgUrl''), JStr (js ''description''),
                   JStr (js ''ingredients''), JStr (js ''instructions'')]),
          (js ''additionalProperties'', JBool False)]),
       (js ''strict'', JBool True)]"

definition recipe_params_single :: "jsstring \<Rightarrow> create_params" where
  "recipe_params_single recipeName =
     \<lparr>response_format =
        JObj [(js ''type'', JStr (js ''json_schema'')), (js ''json_schema'', schema_single)],
      store = True,
      messages =
        [(js ''system'', js ''you are a professional chef. please give me promising recipes. ''),
         (js ''user'', js ''recipe of '' @ recipeName)],
      model = js ''gpt-4o'',
      temperature = 1,
      max_tokens = 4096,
      top_p = 1\<rparr>"

definition getRecipeFromAI_single_try :: "platform \<Rightarrow> openai \<Rightarrow> jsstring \<Rightarrow> thrown + json" where
  "getRecipeFromAI_single_try p openai recipeName =
     (case openai (recipe_params_single recipeName) of
        Inl e \<Rightarrow> Inl e
      | Inr chatCompletion \<Rightarrow>
          (case choices chatCompletion of
             [] \<Rightarrow> Inl (Error (TypeError_message p (js ''finish_reason'')))
           | choice0 # _ \<Rightarrow>
               if finish_reason choice0 = js ''length'' then Inl (Error (js ''Incomplete response''))
               else
                 let recipeResponse = message choice0 in
                 if truthy (refusal recipeResponse) then
                   Inl (Error (js ''Model refused to provide a recipe''))
                 else if truthy (content recipeResponse) then
                   (case JSON_parse (NumberText p) (string_of (content recipeResponse)) of
                      None \<Rightarrow>
                        Inl (Error (SyntaxError_message p (string_of (content recipeResponse))))
                    | Some v \<Rightarrow> Inr v)
                 else Inl (Error (js ''No response content''))))"

definition getRecipeFromAI_single :: "platform \<Rightarrow> openai \<Rightarrow> jsstring \<Rightarrow> json" where
  "getRecipeFromAI_single p openai recipeName =
     (case getRecipeFromAI_single_try p openai recipeName of
        Inr v \<Rightarrow> v
      | Inl e \<Rightarrow> JObj [(js ''error'', JStr (error_message e))])"

definition fetch_single :: "platform \<Rightarrow> request \<Rightarrow> env \<Rightarrow> response" where
  "fetch_single p req e =
     (let openai = OpenAI p (js ''https://models.inference.ai.azure.com'') (GITHUB_TOKEN e);
          foodName = map_of (searchParams req) (js ''foodName'')
      in if \<not> truthy foodName then
           Response_new
             (BodyString (JSON_stringify
                (JObj [(js ''error'', JStr (js ''foodName parameter is required''))]) 0))
             (Some 400) json_headers
         else
           (let recipe = getRecipeFromAI_single p openai (string_of foodName)
            in Response_new (BodyString (JSON_stringify recipe 2)) None json_headers))"

section \<open>Recipes\<close>

text \<open>
  The values the constant \<open>schema\<close> describes: every property is required and no
  other property is admitted.
\<close>

record ingredient =
  ingredient_name :: jsstring
  ingredient_amount :: jsstring
  ingredient_description :: jsstring

record recipe =
  recipe_name :: jsstring
  recipe_description :: jsstring
  recipe_ingredients :: "ingredient list"
  recipe_instructions :: "jsstring list"

definition ingredient_to_json :: "ingredient \<Rightarrow> json" where
  "ingredient_to_json i =
     JObj [(js ''name'', JStr (ingredient_name i)),
           (js ''amount'', JStr (ingredient_amount i)),
           (js ''description'', JStr (ingredient_description i))]"

definition recipe_to_json :: "recipe \<Rightarrow> json" where
  "recipe_to_json r =
     JObj [(js ''name'', JStr (recipe_name r)),
           (js ''description'', JStr (recipe_description r)),
           (js ''ingredients'', JArr (map ingredient_to_json (recipe_ingredients r))),
           (js ''instructions'', JArr (map JStr (recipe_instructions r)))]"

text \<open>
  Reading a JSON value against the schema.  The properties may come in any order; a
  missing, an additional or an ill-typed property makes the value non-conformant.
\<close>

fun json_to_string :: "json \<Rightarrow> jsstring option" where
  "json_to_string (JStr s) = Some s"
| "json_to_string _ = None"

fun json_to_array :: "json \<Rightarrow> json list option" where
  "json_to_array (JArr xs) = Some xs"
| "json_to_array _ = None"

definition has_keys :: "(jsstring \<times> 'v) list \<Rightarrow> jsstring list \<Rightarrow> bool" where
  "has_keys kvs ks \<longleftrightarrow> distinct (map fst kvs) \<and> set (map fst kvs) = set ks"

definition json_to_ingredient :: "json \<Rightarrow> ingredient option" where
  "json_to_ingredient v =
     (case v of
        JObj kvs \<Rightarrow>
          if has_keys kvs [js ''name'', js ''amount'', js ''description''] then
            do {
              n \<leftarrow> Option.bind (map_of kvs (js ''name'')) json_to_string;
              a \<leftarrow> Option.bind (map_of kvs (js ''amount'')) json_to_string;
              d \<leftarrow> Option.bind (map_of kvs (js ''description'')) json_to_string;
              Some \<lparr>ingredient_name = n, ingredient_amount = a, ingredient_description = d\<rparr>
            }
          else None
      | _ \<Rightarrow> None)"

definition json_to_recipe :: "json \<Rightarrow> recipe option" where
  "json_to_recipe v =
     (case v of
        JObj kvs \<Rightarrow>
          if has_keys kvs [js ''name'', js ''description'', js ''ingredients'', js ''instructions''] then
            do {
              n \<leftarrow> Option.bind (map_of kvs (js ''name'')) json_to_string;
              d \<leftarrow> Option.bind (map_of kvs (js ''description'')) json_to_string;
              is \<leftarrow> Option.bind (map_of kvs (js ''ingredients'')) json_to_array;
              ingredients \<leftarrow> those (map json_to_ingredient is);
              ss \<leftarrow> Option.bind (map_of kvs (js ''instructions'')) json_to_array;
              instructions \<leftarrow> those (map json_to_string ss);
              Some \<lparr>recipe_name = n, recipe_description = d,
                    recipe_ingredients = ingredients, recipe_instructions = instructions\<rparr>
            }
          else None
      | _ \<Rightarrow> None)"

text \<open>
  The JSON values without numbers whose objects have distinct keys, none of them an
  array index: their properties are enumerated in the order in which they are written.
\<close>

fun plain :: "json \<Rightarrow> bool"
  and plain_elements :: "json list \<Rightarrow> bool"
  and plain_members :: "(jsstring \<times> json) list \<Rightarrow> bool"
where
  "plain JNull = True"
| "plain (JBool b) = True"
| "plain (JNum n) = False"
| "plain (JStr s) = True"
| "plain (JArr xs) = plain_elements xs"
| "plain (JObj kvs) = plain_members kvs"
| "plain_elements [] = True"
| "plain_elements (x # xs) = (plain x \<and> plain_elements xs)"
| "plain_members [] = True"
| "plain_members ((k, v) # kvs) =
     (array_index k = None \<and> k \<notin> fst ` set kvs \<and> plain v \<and> plain_members kvs)"

section \<open>Example inputs\<close>

text \<open>
  A platform whose chat service answers every request with \<open>completion\<close> and whose
  image search answers every request with \<open>answer\<close>.
\<close>

definition example_platform :: "thrown + chat_completion \<Rightarrow> thrown + upstream_response \<Rightarrow> platform" where
  "example_platform completion answer =
     \<lparr>NumberText = (\<lambda>s. s),
      SyntaxError_message = (\<lambda>s. js ''Unexpected end of JSON input''),
      TypeError_message = (\<lambda>s. js ''Cannot read properties of undefined''),
      encodeURIComponent = Inr,
      OpenAI = (\<lambda>baseURL apiKey params. completion),
      node_fetch = (\<lambda>url. answer)\<rparr>"

definition example_env :: env where
  "example_env = \<lparr>GITHUB_TOKEN = js ''t'', GOOGLE_API_KEY = js ''k'', GOOGLE_CSE_ID = js ''c''\<rparr>"

definition example_choice :: "jsstring \<Rightarrow> jsstring option \<Rightarrow> jsstring option \<Rightarrow> choice" where
  "example_choice reason refused text =
     \<lparr>finish_reason = reason, message = \<lparr>refusal = refused, content = text\<rparr>\<rparr>"

definition example_completion :: "jsstring \<Rightarrow> jsstring option \<Rightarrow> jsstring option \<Rightarrow> chat_completion" where
  "example_completion reason refused text = \<lparr>choices = [example_choice reason refused text]\<rparr>"

definition example_answer :: "nat \<Rightarrow> item list option \<Rightarrow> upstream_response" where
  "example_answer code its = \<lparr>upstream_status = code, upstream_json = Inr \<lparr>items = its\<rparr>\<rparr>"

definition example_item :: "jsstring \<Rightarrow> jsstring \<Rightarrow> item" where
  "example_item l t = \<lparr>link = l, image = \<lparr>thumbnailLink = t\<rparr>\<rparr>"

definition example_request :: "jsstring \<Rightarrow> (jsstring \<times> jsstring) list \<Rightarrow> request" where
  "example_request path query = \<lparr>http_method = js ''GET'', pathname = path, searchParams = query\<rparr>"

definition example_recipe :: recipe where
  "example_recipe =
     \<lparr>recipe_name = js ''Lasagna'',
      recipe_description = js ''Layers of pasta'',
      recipe_ingredients =
        [\<lparr>ingredient_name = js ''pasta'', ingredient_amount = js ''12 sheets'',
          ingredient_description = js ''dry''\<rparr>],
      recipe_instructions = [js ''Boil'', js ''Bake'']\<rparr>"

definition example_recipe_text :: jsstring where
  "example_recipe_text =
     js ''{\"name\":\"Lasagna\",\"description\":\"Layers of pasta\",\"ingredients\":[{\"name\":\"pasta\",\"amount\":\"12 sheets\",\"description\":\"dry\"}],\"instructions\":[\"Boil\",\"Bake\"]}''"

text \<open>Auxiliary notions for the proofs about \<open>JSON.parse\<close>.\<close>

definition member_text :: "jsstring \<Rightarrow> jsstring \<Rightarrow> jsstring \<times> json \<Rightarrow> jsstring" where
  "member_text gap ind kv =
     QuoteJSONString (fst kv) @ 0x3A # (if gap = [] then [] else [0x20])
       @ SerializeJSONProperty gap ind (snd kv)"

definition value_start :: "jschar \<Rightarrow> bool" where
  "value_start c \<longleftrightarrow> c = 0x22 \<or> c = 0x5B \<or> c = 0x7B \<or> c = 0x6E \<or> c = 0x74 \<or> c = 0x66"

section \<open>Evaluation lemmas\<close>

declare decimal.simps [simp del]

lemma of_char_less_65536: "(of_char c :: nat) < 65536"
  using String.nat_of_char_less_256 [of c] by linarith

lemma unat_js_char: "unat (of_nat (of_char c) :: 16 word) = of_char c"
  using of_char_less_65536 [of c] by (simp add: unat_of_nat)

lemma js_char_inj: "(of_nat (of_char c) :: 16 word) = of_nat (of_char d) \<longleftrightarrow> c = d"
proof
  assume "(of_nat (of_char c) :: 16 word) = of_nat (of_char d)"
  then have "unat (of_nat (of_char c) :: 16 word) = unat (of_nat (of_char d) :: 16 word)"
    by simp
  then have "(of_char c :: nat) = of_char d"
    by (simp only: unat_js_char)
  then show "c = d" by simp
qed simp

lemma js_eq_iff [simp]: "js s = js t \<longleftrightarrow> s = t"
  unfolding js_def by (rule inj_map_eq_map) (simp add: inj_on_def js_char_inj)

lemma js_Nil [simp]: "js [] = []"
  by (simp add: js_def)

lemma js_eq_Nil [simp]: "js s = [] \<longleftrightarrow> s = []"
  by (simp add: js_def)

lemma gap_2: "replicate 2 x = [x, x]"
  by (simp add: numeral_2_eq_2)

lemmas stringify_eval =
  gap_2 JSON_stringify_def wrap_parts_def js_def QuoteJSONString_def quote_unit_def
  is_lead_surrogate_def is_trail_surrogate_def

lemma stringify_error_indented:
  "JSON_stringify (JObj [(js ''error'', JStr m)]) 2 =
     [0x7B, 0x0A] @ js ''  \"error\": '' @ QuoteJSONString m @ [0x0A, 0x7D]"
  by (simp add: stringify_eval)

lemma foodName_required_body:
  "JSON_stringify (JObj [(js ''error'', JStr (js ''foodName parameter is required''))]) 0 =
     js ''{\"error\":\"foodName parameter is required\"}''"
  by (simp add: stringify_eval)

lemma foodOrIngName_required_body:
  "JSON_stringify (JObj [(js ''error'', JStr (js ''foodOrIngName parameter is required''))]) 0 =
     js ''{\"error\":\"foodOrIngName parameter is required\"}''"
  by (simp add: stringify_eval)

lemma Response_new_stream:
  "Response_new (BodyStream b) None init =
     \<lparr>status = 200, headers = Headers (map (\<lambda>(k, v). (map to_lower k, v)) init), body = b\<rparr>"
  by (simp add: Response_new_def)

lemma Response_new_json:
  "Response_new (BodyString b) st json_headers =
     \<lparr>status = (case st of None \<Rightarrow> 200 | Some c \<Rightarrow> c),
      headers = Headers [(js ''content-type'', js ''application/json'')], body = b\<rparr>"
  by (simp add: Response_new_def json_headers_def to_lower_def js_def)

lemma cors_lower:
  "map (\<lambda>(k, v). (map to_lower k, v)) corsHeaders =
     [(js ''access-control-allow-origin'', js ''*''),
      (js ''access-control-allow-methods'', js ''GET,HEAD,POST,OPTIONS''),
      (js ''access-control-allow-headers'', js ''Content-Type'')]"
  by (simp add: corsHeaders_def to_lower_def js_def)

lemma spread_Headers: "spread a (own_enumerable_properties h) = a"
  by (cases h) (simp add: spread_def)

lemma catch_response_eq:
  "catch_response x =
     \<lparr>status = 200, headers = Headers [(js ''content-type'', js ''application/json'')],
      body = JSON_stringify (JObj [(js ''error'', JStr (error_message x))]) 2\<rparr>"
  by (simp add: catch_response_def Response_new_json)

lemma getRecipeFromAI_invalid:
  "\<not> truthy foodName \<Longrightarrow>
   getRecipeFromAI p openai foodName =
     \<lparr>status = 400, headers = Headers [(js ''content-type'', js ''application/json'')],
      body = js ''{\"error\":\"foodName parameter is required\"}''\<rparr>"
  by (simp add: getRecipeFromAI_def foodName_required_body Response_new_json)

lemma getImageFromWeb_invalid:
  "\<not> truthy foodOrIngName \<Longrightarrow>
   getImageFromWeb p foodOrIngName e =
     \<lparr>status = 400, headers = Headers [(js ''content-type'', js ''application/json'')],
      body = js ''{\"error\":\"foodOrIngName parameter is required\"}''\<rparr>"
  by (simp add: getImageFromWeb_def foodOrIngName_required_body Response_new_json)

lemma fetch_getRecipe:
  "pathname req = js ''/getRecipe'' \<Longrightarrow>
   fetch p req e =
     \<lparr>status = 200,
      headers = Headers (map (\<lambda>(k, v). (map to_lower k, v)) corsHeaders),
      body = body (getRecipeFromAI p
               (OpenAI p (js ''https://models.inference.ai.azure.com'') (GITHUB_TOKEN e))
               (map_of (searchParams req) (js ''foodName'')))\<rparr>"
  by (simp add: fetch_def Let_def spread_Headers Response_new_stream)

lemma fetch_getImage:
  "pathname req = js ''/getImage'' \<Longrightarrow>
   fetch p req e =
     \<lparr>status = 200,
      headers = Headers (map (\<lambda>(k, v). (map to_lower k, v)) corsHeaders),
      body = body (getImageFromWeb p (map_of (searchParams req) (js ''foodOrIngName'')) e)\<rparr>"
  by (simp add: fetch_def Let_def spread_Headers Response_new_stream)

lemma fetch_other:
  "pathname req \<noteq> js ''/getRecipe'' \<Longrightarrow> pathname req \<noteq> js ''/getImage'' \<Longrightarrow>
   fetch p req e =
     \<lparr>status = 404,
      headers = Headers (map (\<lambda>(k, v). (map to_lower k, v)) corsHeaders
                          @ [(js ''content-type'', js ''text/plain;charset=UTF-8'')]),
      body = js ''Not found''\<rparr>"
  by (simp add: fetch_def Response_new_def cors_lower)

lemma lower_content_type: "map to_lower (js ''Content-Type'') = js ''content-type''"
  by (simp add: to_lower_def js_def)

lemma fetch_cors_headers:
  "Headers_get (headers (fetch p req e)) (js ''Access-Control-Allow-Origin'') = Some (js ''*'')
   \<and> Headers_get (headers (fetch p req e)) (js ''Access-Control-Allow-Methods'') =
       Some (js ''GET,HEAD,POST,OPTIONS'')
   \<and> Headers_get (headers (fetch p req e)) (js ''Access-Control-Allow-Headers'') =
       Some (js ''Content-Type'')"
proof -
  have l: "map to_lower (js ''Access-Control-Allow-Origin'') = js ''access-control-allow-origin''"
    "map to_lower (js ''Access-Control-Allow-Methods'') = js ''access-control-allow-methods''"
    "map to_lower (js ''Access-Control-Allow-Headers'') = js ''access-control-allow-headers''"
    by (simp_all add: to_lower_def js_def)
  consider "pathname req = js ''/getRecipe''" | "pathname req = js ''/getImage''"
    | "pathname req \<noteq> js ''/getRecipe''" "pathname req \<noteq> js ''/getImage''"
    by blast
  then show ?thesis
  proof cases
    case 1
    then show ?thesis by (simp add: fetch_getRecipe cors_lower l)
  next
    case 2
    then show ?thesis by (simp add: fetch_getImage cors_lower l)
  next
    case 3
    then show ?thesis by (simp add: fetch_other cors_lower l)
  qed
qed

lemma getRecipeFromAI_valid:
  "truthy foodName \<Longrightarrow>
   getRecipeFromAI p openai foodName =
     (case getRecipeFromAI_try p openai (string_of foodName) of
        Inr r \<Rightarrow> r | Inl x \<Rightarrow> catch_response x)"
  by (simp add: getRecipeFromAI_def)

lemma getImageFromWeb_valid:
  "truthy foodOrIngName \<Longrightarrow>
   getImageFromWeb p foodOrIngName e =
     (case getImageFromWeb_try p (string_of foodOrIngName) e of
        Inr r \<Rightarrow> r | Inl x \<Rightarrow> catch_response x)"
  by (simp add: getImageFromWeb_def)

lemma error_body_text:
  "JSON_stringify (JObj [(js ''error'', JStr (js ''Incomplete response''))]) 2 =
     [0x7B, 0x0A] @ js ''  \"error\": \"Incomplete response\"'' @ [0x0A, 0x7D]"
  "JSON_stringify (JObj [(js ''error'', JStr (js ''Model refused to provide a recipe''))]) 2 =
     [0x7B, 0x0A] @ js ''  \"error\": \"Model refused to provide a recipe\"'' @ [0x0A, 0x7D]"
  "JSON_stringify (JObj [(js ''error'', JStr (js ''No results found on Google''))]) 2 =
     [0x7B, 0x0A] @ js ''  \"error\": \"No results found on Google\"'' @ [0x0A, 0x7D]"
  "JSON_stringify (JObj [(js ''error'', JStr (js ''An unknown error occurred''))]) 2 =
     [0x7B, 0x0A] @ js ''  \"error\": \"An unknown error occurred\"'' @ [0x0A, 0x7D]"
  by (simp_all add: stringify_eval)

lemma js_length_neq: "js ''stop'' \<noteq> js ''length''"
  by simp

lemma decimal_404: "decimal 404 = js ''404''"
  by code_simp

lemma google_error_404_body:
  "JSON_stringify (JObj [(js ''error'', JStr (js ''Google API error: '' @ js ''404''))]) 2 =
     [0x7B, 0x0A] @ js ''  \"error\": \"Google API error: 404\"'' @ [0x0A, 0x7D]"
  by (simp add: stringify_eval)

section \<open>Parsing what was serialised\<close>

lemma hex_value_hex_digit: "d < 16 \<Longrightarrow> hex_value (hex_digit d) = Some d"
  by (simp add: hex_value_def hex_digit_def unat_of_nat Let_def)

lemma nibbles_join:
  fixes n :: nat
  assumes "n < 65536"
  shows "4096 * (n div 4096 mod 16) + 256 * (n div 256 mod 16) + 16 * (n div 16 mod 16) + n mod 16 = n"
proof -
  have a: "n = 16 * (n div 16) + n mod 16" by simp
  have "n div 16 div 16 = n div 256" by (simp add: div_mult2_eq [symmetric])
  then have b: "n div 16 = 16 * (n div 256) + n div 16 mod 16"
    using mult_div_mod_eq [of 16 "n div 16"] by simp
  have "n div 256 div 16 = n div 4096" by (simp add: div_mult2_eq [symmetric])
  then have c: "n div 256 = 16 * (n div 4096) + n div 256 mod 16"
    using mult_div_mod_eq [of 16 "n div 256"] by simp
  have "n div 4096 < 16" using assms by simp
  then have d: "n div 4096 mod 16 = n div 4096" by simp
  show ?thesis using a b c d by linarith
qed

lemma hex4_UnicodeEscape:
  "UnicodeEscape c = [0x5C, 0x75, h1, h2, h3, h4] \<Longrightarrow> hex4 h1 h2 h3 h4 = Some c"
proof -
  assume "UnicodeEscape c = [0x5C, 0x75, h1, h2, h3, h4]"
  then have h: "h1 = hex_digit (unat c div 4096 mod 16)" "h2 = hex_digit (unat c div 256 mod 16)"
    "h3 = hex_digit (unat c div 16 mod 16)" "h4 = hex_digit (unat c mod 16)"
    by (simp_all add: UnicodeEscape_def)
  have "unat c < 65536" using unsigned_less [of c, where 'a = nat] by simp
  then have "(of_nat (4096 * (unat c div 4096 mod 16) + 256 * (unat c div 256 mod 16)
                + 16 * (unat c div 16 mod 16) + unat c mod 16) :: 16 word) = c"
    by (simp only: nibbles_join) simp
  then show ?thesis
    unfolding hex4_def h by (simp add: hex_value_hex_digit)
qed

lemma parse_chars_plain_unit:
  "c \<noteq> 0x22 \<Longrightarrow> c \<noteq> 0x5C \<Longrightarrow> \<not> c < 0x20 \<Longrightarrow>
   parse_chars (c # t) = cons_fst c (parse_chars t)"
  by simp

lemma surrogate_plain:
  assumes "is_lead_surrogate c \<or> is_trail_surrogate c"
  shows "c \<noteq> 0x22" "c \<noteq> 0x5C" "\<not> c < 0x20"
  using assms
  by (auto simp add: is_lead_surrogate_def is_trail_surrogate_def word_le_nat_alt word_less_nat_alt)

lemma parse_chars_UnicodeEscape:
  "parse_chars (UnicodeEscape c @ t) = cons_fst c (parse_chars t)"
proof -
  obtain h1 h2 h3 h4 where u: "UnicodeEscape c = [0x5C, 0x75, h1, h2, h3, h4]"
    by (simp add: UnicodeEscape_def)
  then have "hex4 h1 h2 h3 h4 = Some c"
    by (rule hex4_UnicodeEscape)
  then show ?thesis
    by (simp add: u)
qed

lemma parse_chars_quote_unit:
  "parse_chars (quote_unit c @ t) = cons_fst c (parse_chars t)"
proof -
  consider "c = 0x08" | "c = 0x09" | "c = 0x0A" | "c = 0x0C" | "c = 0x0D" | "c = 0x22" | "c = 0x5C"
    | "c \<notin> {0x08, 0x09, 0x0A, 0x0C, 0x0D, 0x22, 0x5C}"
      "c < 0x20 \<or> is_lead_surrogate c \<or> is_trail_surrogate c"
    | "c \<notin> {0x08, 0x09, 0x0A, 0x0C, 0x0D, 0x22, 0x5C}"
      "\<not> (c < 0x20 \<or> is_lead_surrogate c \<or> is_trail_surrogate c)"
    by blast
  then show ?thesis
  proof cases
    case 8
    then have "quote_unit c = UnicodeEscape c" by (simp add: quote_unit_def)
    then show ?thesis by (simp add: parse_chars_UnicodeEscape)
  next
    case 9
    then have "quote_unit c = [c]" by (simp add: quote_unit_def)
    then show ?thesis using 9 by simp
  qed (simp_all add: quote_unit_def unescape_def)
qed

lemma parse_chars_quote_units:
  "parse_chars (quote_units s @ 0x22 # rest) = Some (s, rest)"
proof (induction s rule: quote_units.induct)
  case 1
  show ?case by simp
next
  case (2 c)
  have "parse_chars (0x22 # rest) = Some ([], rest)" by simp
  then show ?case
    by (simp add: parse_chars_quote_unit cons_fst_def del: parse_chars.simps)
next
  case (3 c d cs)
  show ?case
  proof (cases "is_lead_surrogate c \<and> is_trail_surrogate d")
    case True
    then have "c \<noteq> 0x22" "c \<noteq> 0x5C" "\<not> c < 0x20" "d \<noteq> 0x22" "d \<noteq> 0x5C" "\<not> d < 0x20"
      using surrogate_plain [of c] surrogate_plain [of d] by blast+
    then have "parse_chars (c # d # quote_units cs @ 0x22 # rest) =
                 cons_fst c (cons_fst d (parse_chars (quote_units cs @ 0x22 # rest)))"
      by simp
    moreover have "parse_chars (quote_units cs @ 0x22 # rest) = Some (cs, rest)"
      using 3(1) True by simp
    moreover have "quote_units (c # d # cs) = c # d # quote_units cs"
      using True by simp
    ultimately show ?thesis
      by (simp add: cons_fst_def del: parse_chars.simps)
  next
    case False
    have "quote_units (c # d # cs) = quote_unit c @ quote_units (d # cs)"
      by (simp only: quote_units.simps False if_False)
    moreover have "parse_chars (quote_units (d # cs) @ 0x22 # rest) = Some (d # cs, rest)"
      by (rule 3(2)) (rule False)
    ultimately show ?thesis
      by (simp add: parse_chars_quote_unit cons_fst_def del: parse_chars.simps)
  qed
qed

lemma parse_chars_QuoteJSONString:
  "QuoteJSONString s @ rest = 0x22 # t \<Longrightarrow> parse_chars t = Some (s, rest)"
  by (auto simp add: QuoteJSONString_def parse_chars_quote_units)

lemma skip_ws_append: "list_all is_ws w \<Longrightarrow> skip_ws (w @ t) = skip_ws t"
  by (induction w) simp_all

lemma skip_ws_Cons: "\<not> is_ws c \<Longrightarrow> skip_ws (c # t) = c # t"
  by simp

lemma parse_value_skip: "list_all is_ws w \<Longrightarrow> parse_value num n (w @ t) = parse_value num n t"
  by (cases n) (simp_all add: skip_ws_append)

lemma parse_elements_skip: "list_all is_ws w \<Longrightarrow> parse_elements num n (w @ t) = parse_elements num n t"
  by (cases n) (simp_all add: parse_value_skip)

lemma parse_members_skip: "list_all is_ws w \<Longrightarrow> parse_members num n (w @ t) = parse_members num n t"
  by (cases n) (simp_all add: skip_ws_append)

lemma SerializeJSONArray_map:
  "SerializeJSONArray gap ind xs = map (SerializeJSONProperty gap ind) xs"
  by (induction xs) simp_all

lemma SerializeJSONObject_map:
  "SerializeJSONObject gap ind kvs = map (member_text gap ind) kvs"
  by (induction kvs) (auto simp add: member_text_def)

lemma wrap_parts_start: "\<exists>cs. wrap_parts opn cls gap ind parts = opn # cs"
  by (simp add: wrap_parts_def)

lemma plain_starts:
  assumes "plain v"
  shows "\<exists>c cs. SerializeJSONProperty gap ind v = c # cs \<and> value_start c"
proof (cases v)
  case (JArr xs)
  obtain cs where "wrap_parts 0x5B 0x5D gap ind (SerializeJSONArray gap (ind @ gap) xs) = 0x5B # cs"
    using wrap_parts_start by blast
  then show ?thesis using JArr by (simp add: value_start_def)
next
  case (JObj kvs)
  obtain cs where "wrap_parts 0x7B 0x7D gap ind (SerializeJSONObject gap (ind @ gap) kvs) = 0x7B # cs"
    using wrap_parts_start by blast
  then show ?thesis using JObj by (simp add: value_start_def)
qed (use assms in \<open>auto simp add: value_start_def js_def QuoteJSONString_def\<close>)

lemma value_start_facts:
  assumes "value_start c"
  shows "\<not> is_ws c" "c \<noteq> 0x5D" "c \<noteq> 0x7D" "c \<noteq> 0x2C"
  using assms by (auto simp add: value_start_def is_ws_def)

lemma parse_elements_join:
  fixes S :: "json \<Rightarrow> jsstring"
  assumes ws: "list_all is_ws w1" "list_all is_ws w2"
    and ih: "\<And>x n t. x \<in> set xs \<Longrightarrow> length (S x) < n \<Longrightarrow> parse_value num n (S x @ t) = Some (x, t)"
    and ne: "xs \<noteq> []"
    and fuel: "length (join (0x2C # w1) (map S xs)) + 1 < n"
  shows "parse_elements num n (join (0x2C # w1) (map S xs) @ w2 @ 0x5D # rest) = Some (xs, rest)"
  using ih ne fuel
proof (induction xs arbitrary: n)
  case Nil
  then show ?case by simp
next
  case (Cons x xs)
  obtain m where n: "n = Suc m"
    using Cons.prems(3) by (cases n) simp_all
  show ?case
  proof (cases xs)
    case Nil
    have "length (S x) < m"
      using Cons.prems(3) n Nil by simp
    then have pv: "parse_value num m (S x @ w2 @ 0x5D # rest) = Some (x, w2 @ 0x5D # rest)"
      using Cons.prems(1) by simp
    have "skip_ws (w2 @ 0x5D # rest) = 0x5D # rest"
      using ws(2) by (simp add: skip_ws_append is_ws_def)
    then show ?thesis
      using pv n Nil by simp
  next
    case (Cons y ys)
    let ?tail = "join (0x2C # w1) (map S xs) @ w2 @ 0x5D # rest"
    have j: "join (0x2C # w1) (map S (x # xs)) = S x @ (0x2C # w1) @ join (0x2C # w1) (map S xs)"
      using Cons by simp
    have "length (S x) < m"
      using Cons.prems(3) n j by simp
    then have pv: "parse_value num m (S x @ 0x2C # w1 @ ?tail) = Some (x, 0x2C # w1 @ ?tail)"
      using Cons.prems(1) by simp
    have sk: "skip_ws (0x2C # w1 @ ?tail) = 0x2C # w1 @ ?tail"
      by (simp add: is_ws_def)
    have "length (join (0x2C # w1) (map S xs)) + 1 < m"
      using Cons.prems(3) n j by simp
    moreover have "xs \<noteq> []"
      using Cons by simp
    moreover have "\<And>x n t. x \<in> set xs \<Longrightarrow> length (S x) < n \<Longrightarrow>
               parse_value num n (S x @ t) = Some (x, t)"
      using Cons.prems(1) by (meson list.set_intros(2))
    ultimately have "parse_elements num m ?tail = Some (xs, rest)"
      using Cons.IH [of m] by blast
    then have "parse_elements num m (w1 @ ?tail) = Some (xs, rest)"
      using ws(1) by (simp add: parse_elements_skip)
    then show ?thesis
      using pv sk n j by (simp add: cons_fst_def)
  qed
qed

lemma parse_members_join:
  fixes S :: "json \<Rightarrow> jsstring"
  assumes ws: "list_all is_ws w1" "list_all is_ws w2" "list_all is_ws sp"
    and ih: "\<And>k v n t. (k, v) \<in> set kvs \<Longrightarrow> length (S v) < n \<Longrightarrow>
               parse_value num n (S v @ t) = Some (v, t)"
    and ne: "kvs \<noteq> []"
    and fuel: "length (join (0x2C # w1) (map (\<lambda>kv. QuoteJSONString (fst kv) @ 0x3A # sp @ S (snd kv)) kvs)) + 1 < n"
  shows "parse_members num n
           (join (0x2C # w1) (map (\<lambda>kv. QuoteJSONString (fst kv) @ 0x3A # sp @ S (snd kv)) kvs)
              @ w2 @ 0x7D # rest) = Some (kvs, rest)"
  using ih ne fuel
proof (induction kvs arbitrary: n)
  case Nil
  then show ?case by simp
next
  case (Cons kv kvs)
  let ?M = "\<lambda>kv. QuoteJSONString (fst kv) @ 0x3A # sp @ S (snd kv)"
  obtain k v where kv: "kv = (k, v)"
    by (cases kv)
  obtain m where n: "n = Suc m"
    using Cons.prems(3) by (cases n) simp_all
  have key: "\<And>t. parse_chars (quote_units k @ 0x22 # t) = Some (k, t)"
    by (rule parse_chars_quote_units)
  have colon: "\<And>t. skip_ws (0x3A # t) = 0x3A # t"
    by (simp add: is_ws_def)
  show ?case
  proof (cases kvs)
    case Nil
    have "length (S v) < m"
      using Cons.prems(3) n Nil kv by simp
    then have "parse_value num m (S v @ w2 @ 0x7D # rest) = Some (v, w2 @ 0x7D # rest)"
      using Cons.prems(1) [of k v] kv by simp
    then have pv: "parse_value num m (sp @ S v @ w2 @ 0x7D # rest) = Some (v, w2 @ 0x7D # rest)"
      using ws(3) by (simp add: parse_value_skip)
    have "skip_ws (w2 @ 0x7D # rest) = 0x7D # rest"
      using ws(2) by (simp add: skip_ws_append is_ws_def)
    then show ?thesis
      using pv n Nil kv key colon
      by (simp add: QuoteJSONString_def is_ws_def del: parse_chars.simps)
  next
    case (Cons kv' kvs')
    let ?tail = "join (0x2C # w1) (map ?M kvs) @ w2 @ 0x7D # rest"
    have j: "join (0x2C # w1) (map ?M (kv # kvs)) = ?M kv @ (0x2C # w1) @ join (0x2C # w1) (map ?M kvs)"
      using Cons by simp
    have "length (S v) < m"
      using Cons.prems(3) n j kv by simp
    then have "parse_value num m (S v @ 0x2C # w1 @ ?tail) = Some (v, 0x2C # w1 @ ?tail)"
      using Cons.prems(1) [of k v] kv by simp
    then have pv: "parse_value num m (sp @ S v @ 0x2C # w1 @ ?tail) = Some (v, 0x2C # w1 @ ?tail)"
      using ws(3) by (simp add: parse_value_skip)
    have sk: "skip_ws (0x2C # w1 @ ?tail) = 0x2C # w1 @ ?tail"
      by (simp add: is_ws_def)
    have "length (join (0x2C # w1) (map ?M kvs)) + 1 < m"
      using Cons.prems(3) n j by simp
    moreover have "kvs \<noteq> []"
      using Cons by simp
    moreover have "\<And>k v n t. (k, v) \<in> set kvs \<Longrightarrow> length (S v) < n \<Longrightarrow>
               parse_value num n (S v @ t) = Some (v, t)"
      using Cons.prems(1) by (meson list.set_intros(2))
    ultimately have "parse_members num m ?tail = Some (kvs, rest)"
      using Cons.IH [of m] by blast
    then have "parse_members num m (w1 @ ?tail) = Some (kvs, rest)"
      using ws(1) by (simp add: parse_members_skip)
    then show ?thesis
      using pv sk n j kv key colon
      by (simp add: cons_fst_def QuoteJSONString_def is_ws_def del: parse_chars.simps)
  qed
qed

lemma foldl_CreateDataProperty:
  "plain_members kvs \<Longrightarrow> fst ` set acc \<inter> fst ` set kvs = {} \<Longrightarrow>
   foldl CreateDataProperty acc kvs = acc @ kvs"
proof (induction kvs arbitrary: acc)
  case Nil
  then show ?case by simp
next
  case (Cons kv kvs)
  obtain k v where kv: "kv = (k, v)"
    by (cases kv)
  have "k \<notin> fst ` set acc" "array_index k = None"
    using Cons.prems kv by auto
  then have step: "CreateDataProperty acc kv = acc @ [kv]"
    by (simp add: CreateDataProperty_def kv)
  have "fst ` set (acc @ [kv]) \<inter> fst ` set kvs = {}"
    using Cons.prems kv by auto
  then have "foldl CreateDataProperty (acc @ [kv]) kvs = (acc @ [kv]) @ kvs"
    using Cons.IH [of "acc @ [kv]"] Cons.prems(1) kv by simp
  then show ?case
    by (simp add: step)
qed

lemma wrap_parts_nonempty:
  assumes "parts \<noteq> []" "list_all is_ws gap" "list_all is_ws ind"
  shows "\<exists>w0 w2. list_all is_ws w0 \<and> list_all is_ws w2
           \<and> wrap_parts opn cls gap ind parts = opn # w0 @ join (0x2C # w0) parts @ w2 @ [cls]"
proof (cases "gap = []")
  case True
  then have "wrap_parts opn cls gap ind parts = opn # [] @ join (0x2C # []) parts @ [] @ [cls]"
    using assms(1) by (simp add: wrap_parts_def)
  moreover have "list_all is_ws ([] :: jsstring)"
    by simp
  ultimately show ?thesis
    by blast
next
  case False
  then have "wrap_parts opn cls gap ind parts =
               opn # (0x0A # ind @ gap) @ join (0x2C # (0x0A # ind @ gap)) parts @ (0x0A # ind) @ [cls]"
    using assms(1) by (simp add: wrap_parts_def)
  moreover have "list_all is_ws (0x0A # ind @ gap)" "list_all is_ws (0x0A # ind)"
    using assms(2,3) by (simp_all add: is_ws_def)
  ultimately show ?thesis
    by blast
qed

lemma join_start: "join sep (x # xs) = x @ (if xs = [] then [] else sep @ join sep xs)"
  by (cases xs) simp_all

lemma plain_elements_set: "plain_elements xs \<Longrightarrow> x \<in> set xs \<Longrightarrow> plain x"
  by (induction xs) auto

lemma plain_members_set: "plain_members kvs \<Longrightarrow> (k, v) \<in> set kvs \<Longrightarrow> plain v"
  by (induction kvs) auto

lemma gap_sep_ws: "list_all is_ws gap \<Longrightarrow> list_all is_ws (if gap = [] then [] else [0x20])"
  by (simp add: is_ws_def)

lemma parse_value_Serialize:
  assumes gap: "list_all is_ws gap"
  shows "plain v \<Longrightarrow> list_all is_ws ind \<Longrightarrow> length (SerializeJSONProperty gap ind v) < n \<Longrightarrow>
         parse_value num n (SerializeJSONProperty gap ind v @ rest) = Some (v, rest)"
proof (induction v arbitrary: ind n rest)
  case JNull
  then obtain m where "n = Suc m" by (cases n) simp_all
  then show ?case
    by (simp add: js_def is_ws_def strip_prefix_def)
next
  case (JBool b)
  then obtain m where "n = Suc m" by (cases n) simp_all
  then show ?case
    by (simp add: js_def is_ws_def strip_prefix_def)
next
  case (JNum x)
  then show ?case by simp
next
  case (JStr s)
  then obtain m where "n = Suc m" by (cases n) simp_all
  moreover have "parse_chars (quote_units s @ 0x22 # rest) = Some (s, rest)"
    by (rule parse_chars_quote_units)
  ultimately show ?case
    by (simp add: QuoteJSONString_def is_ws_def del: parse_chars.simps)
next
  case (JArr xs)
  obtain m where n: "n = Suc m" using JArr.prems(3) by (cases n) simp_all
  have open_ws: "\<And>t. skip_ws (0x5B # t) = 0x5B # t" by (simp add: is_ws_def)
  show ?case
  proof (cases xs)
    case Nil
    then show ?thesis
      using n by (simp add: wrap_parts_def is_ws_def)
  next
    case (Cons x xs')
    let ?S = "SerializeJSONProperty gap (ind @ gap)"
    have ind': "list_all is_ws (ind @ gap)"
      using gap JArr.prems(2) by simp
    have parts: "SerializeJSONArray gap (ind @ gap) xs = map ?S xs" "map ?S xs \<noteq> []"
      using Cons by (simp_all add: SerializeJSONArray_map)
    obtain w0 w2 where w: "list_all is_ws w0" "list_all is_ws w2"
      and shape: "wrap_parts 0x5B 0x5D gap ind (map ?S xs) =
                   0x5B # w0 @ join (0x2C # w0) (map ?S xs) @ w2 @ [0x5D]"
      using wrap_parts_nonempty [OF parts(2) gap JArr.prems(2)] by blast
    let ?J = "join (0x2C # w0) (map ?S xs)"
    have "plain x"
      using JArr.prems(1) Cons by simp
    then obtain c cs where "?S x = c # cs" "value_start c"
      using plain_starts by blast
    then obtain t where J: "?J = c # t" and c: "\<not> is_ws c" "c \<noteq> 0x5D"
      using Cons value_start_facts [of c] by (auto simp add: join_start)
    have elems: "\<And>y k t. y \<in> set xs \<Longrightarrow> length (?S y) < k \<Longrightarrow>
                   parse_value num k (?S y @ t) = Some (y, t)"
      using JArr.IH JArr.prems(1) ind' by (simp add: plain_elements_set)
    have "length ?J + 1 < m"
      using JArr.prems(3) n by (simp add: parts shape)
    then have "parse_elements num m (?J @ w2 @ 0x5D # rest) = Some (xs, rest)"
      using parse_elements_join [OF w elems] parts(2) by simp
    then have pe: "parse_elements num m (w0 @ ?J @ w2 @ 0x5D # rest) = Some (xs, rest)"
      using w(1) by (simp add: parse_elements_skip)
    have "skip_ws (w0 @ ?J @ w2 @ 0x5D # rest) = c # t @ w2 @ 0x5D # rest"
      using w(1) c(1) by (simp add: skip_ws_append J)
    then show ?thesis
      using pe c(2) n open_ws by (simp add: parts shape)
  qed
next
  case (JObj kvs)
  obtain m where n: "n = Suc m" using JObj.prems(3) by (cases n) simp_all
  have open_ws: "\<And>t. skip_ws (0x7B # t) = 0x7B # t" by (simp add: is_ws_def)
  have obj: "foldl CreateDataProperty [] kvs = kvs"
    using foldl_CreateDataProperty [of kvs "[]"] JObj.prems(1) by simp
  show ?case
  proof (cases kvs)
    case Nil
    then show ?thesis
      using n by (simp add: wrap_parts_def is_ws_def)
  next
    case (Cons kv kvs')
    let ?S = "SerializeJSONProperty gap (ind @ gap)"
    let ?sp = "if gap = [] then [] else [0x20 :: jschar]"
    let ?M = "\<lambda>kv. QuoteJSONString (fst kv) @ 0x3A # ?sp @ ?S (snd kv)"
    have ind': "list_all is_ws (ind @ gap)"
      using gap JObj.prems(2) by simp
    have parts: "SerializeJSONObject gap (ind @ gap) kvs = map ?M kvs" "map ?M kvs \<noteq> []"
      using Cons by (simp_all add: SerializeJSONObject_map member_text_def [abs_def])
    obtain w0 w2 where w: "list_all is_ws w0" "list_all is_ws w2"
      and shape: "wrap_parts 0x7B 0x7D gap ind (map ?M kvs) =
                   0x7B # w0 @ join (0x2C # w0) (map ?M kvs) @ w2 @ [0x7D]"
      using wrap_parts_nonempty [OF parts(2) gap JObj.prems(2)] by blast
    let ?J = "join (0x2C # w0) (map ?M kvs)"
    obtain t where J: "?J = 0x22 # t"
      using Cons by (auto simp add: join_start QuoteJSONString_def)
    have members: "\<And>k v j t. (k, v) \<in> set kvs \<Longrightarrow> length (?S v) < j \<Longrightarrow>
                   parse_value num j (?S v @ t) = Some (v, t)"
    proof -
      fix k v j t
      assume kv: "(k, v) \<in> set kvs" and len: "length (?S v) < j"
      have "plain v"
        using JObj.prems(1) kv by (simp add: plain_members_set)
      moreover have "v \<in> Basic_BNFs.snds (k, v)"
        by simp
      ultimately show "parse_value num j (?S v @ t) = Some (v, t)"
        using JObj.IH [OF kv] ind' len by blast
    qed
    have "length ?J + 1 < m"
      using JObj.prems(3) n by (simp add: parts shape)
    then have "parse_members num m (?J @ w2 @ 0x7D # rest) = Some (kvs, rest)"
      using parse_members_join [OF w gap_sep_ws [OF gap] members] parts(2) by simp
    then have pm: "parse_members num m (w0 @ ?J @ w2 @ 0x7D # rest) = Some (kvs, rest)"
      using w(1) by (simp add: parse_members_skip)
    have "skip_ws (w0 @ ?J @ w2 @ 0x7D # rest) = 0x22 # t @ w2 @ 0x7D # rest"
      using w(1) by (simp add: skip_ws_append J is_ws_def)
    then show ?thesis
      using pm n open_ws obj by (simp add: parts shape)
  qed
qed

theorem JSON_parse_stringify:
  "plain v \<Longrightarrow> JSON_parse num (JSON_stringify v space) = Some v"
proof -
  assume v: "plain v"
  let ?gap = "replicate (min 10 space) (0x20 :: jschar)"
  let ?s = "SerializeJSONProperty ?gap [] v"
  have "list_all is_ws ?gap"
    by (simp add: list_all_iff is_ws_def)
  then have "parse_value num (Suc (length ?s)) (?s @ []) = Some (v, [])"
    using v by (intro parse_value_Serialize) simp_all
  then show ?thesis
    by (simp add: JSON_parse_def JSON_stringify_def)
qed

lemma plain_elements_iff: "plain_elements xs \<longleftrightarrow> (\<forall>x\<in>set xs. plain x)"
  by (induction xs) auto

lemma plain_members_iff:
  "plain_members kvs \<longleftrightarrow>
     distinct (map fst kvs) \<and> (\<forall>kv\<in>set kvs. array_index (fst kv) = None \<and> plain (snd kv))"
  by (induction kvs) (auto simp add: rev_image_eqI)

lemma those_map_Some:
  "those (map f xs) = Some ys \<Longrightarrow> x \<in> set xs \<Longrightarrow> \<exists>y. f x = Some y"
  by (induction xs arbitrary: ys) (auto split: option.splits)

lemma those_map_inverse:
  "(\<And>x. f (g x) = Some x) \<Longrightarrow> those (map (f \<circ> g) xs) = Some xs"
  by (induction xs) simp_all

lemma json_to_string_Some: "json_to_string v = Some s \<Longrightarrow> v = JStr s"
  by (cases v) simp_all

lemma json_to_array_Some: "json_to_array v = Some xs \<Longrightarrow> v = JArr xs"
  by (cases v) simp_all

lemma schema_keys_not_indices:
  "array_index (js ''name'') = None" "array_index (js ''amount'') = None"
  "array_index (js ''description'') = None" "array_index (js ''ingredients'') = None"
  "array_index (js ''instructions'') = None" "array_index (js ''url'') = None"
  "array_index (js ''thumb'') = None" "array_index (js ''error'') = None"
  by (simp_all add: array_index_def js_def is_digit_def)

lemma map_of_member:
  "distinct (map fst kvs) \<Longrightarrow> (k, x) \<in> set kvs \<Longrightarrow> map_of kvs k = Some x"
  by simp

lemma ingredient_plain:
  assumes "json_to_ingredient v = Some i"
  shows "plain v"
proof -
  obtain kvs where v: "v = JObj kvs"
    using assms by (cases v) (simp_all add: json_to_ingredient_def)
  have keys: "distinct (map fst kvs)"
    "set (map fst kvs) = {js ''name'', js ''amount'', js ''description''}"
    using assms v by (auto simp add: json_to_ingredient_def has_keys_def split: if_splits)
  obtain n a d where vals: "map_of kvs (js ''name'') = Some (JStr n)"
    "map_of kvs (js ''amount'') = Some (JStr a)" "map_of kvs (js ''description'') = Some (JStr d)"
    using assms v
    by (auto simp add: json_to_ingredient_def split: if_splits Option.bind_splits
        dest!: json_to_string_Some)
  have "array_index k = None \<and> plain x" if "(k, x) \<in> set kvs" for k x
  proof -
    have "k \<in> {js ''name'', js ''amount'', js ''description''}"
      using that keys(2) by force
    moreover have "map_of kvs k = Some x"
      using keys(1) that by (rule map_of_member)
    ultimately show ?thesis
      using vals schema_keys_not_indices by auto
  qed
  then show ?thesis
    using keys(1) v by (auto simp add: plain_members_iff)
qed

lemma recipe_plain:
  assumes "json_to_recipe v = Some r"
  shows "plain v"
proof -
  obtain kvs where v: "v = JObj kvs"
    using assms by (cases v) (simp_all add: json_to_recipe_def)
  have keys: "distinct (map fst kvs)"
    "set (map fst kvs) = {js ''name'', js ''description'', js ''ingredients'', js ''instructions''}"
    using assms v by (auto simp add: json_to_recipe_def has_keys_def split: if_splits)
  obtain n d ings steps ings' steps' where vals: "map_of kvs (js ''name'') = Some (JStr n)"
    "map_of kvs (js ''description'') = Some (JStr d)"
    "map_of kvs (js ''ingredients'') = Some (JArr ings)"
    "map_of kvs (js ''instructions'') = Some (JArr steps)"
    and elems: "those (map json_to_ingredient ings) = Some ings'" "those (map json_to_string steps) = Some steps'"
    using assms v
    by (auto simp add: json_to_recipe_def split: if_splits Option.bind_splits
        dest!: json_to_string_Some json_to_array_Some)
  have "plain x" if "x \<in> set ings" for x
    using those_map_Some [OF elems(1) that] ingredient_plain by blast
  then have pi: "plain (JArr ings)"
    by (simp add: plain_elements_iff)
  have "plain x" if "x \<in> set steps" for x
    using those_map_Some [OF elems(2) that] json_to_string_Some by fastforce
  then have ps: "plain (JArr steps)"
    by (simp add: plain_elements_iff)
  have "array_index k = None \<and> plain x" if "(k, x) \<in> set kvs" for k x
  proof -
    have "k \<in> {js ''name'', js ''description'', js ''ingredients'', js ''instructions''}"
      using that keys(2) by force
    moreover have "map_of kvs k = Some x"
      using keys(1) that by (rule map_of_member)
    ultimately show ?thesis
      using vals pi ps schema_keys_not_indices by auto
  qed
  then show ?thesis
    using keys(1) v by (auto simp add: plain_members_iff)
qed

lemma json_to_ingredient_inverse: "json_to_ingredient (ingredient_to_json i) = Some i"
  by (simp add: json_to_ingredient_def ingredient_to_json_def has_keys_def)

lemma json_to_recipe_inverse: "json_to_recipe (recipe_to_json r) = Some r"
proof -
  have "those (map (json_to_ingredient \<circ> ingredient_to_json) (recipe_ingredients r)) =
          Some (recipe_ingredients r)"
    by (rule those_map_inverse) (rule json_to_ingredient_inverse)
  moreover have "those (map (json_to_string \<circ> JStr) (recipe_instructions r)) =
          Some (recipe_instructions r)"
    by (rule those_map_inverse) simp
  ultimately show ?thesis
    by (simp add: json_to_recipe_def recipe_to_json_def has_keys_def)
qed

lemma JSON_parse_empty: "JSON_parse num [] = None"
  by (simp add: JSON_parse_def)

section \<open>The bound on nested calls of the parser\<close>

lemma cons_fst_Some: "cons_fst x r = Some (ys, t) \<longleftrightarrow> (\<exists>xs. r = Some (xs, t) \<and> ys = x # xs)"
  by (auto simp add: cons_fst_def split: option.splits)

lemma skip_ws_length: "length (skip_ws s) \<le> length s"
  by (induction s) auto

lemma skip_ws_Cons_length: "skip_ws s = c # cs \<Longrightarrow> length cs < length s"
  using skip_ws_length [of s] by simp

lemma parse_chars_length: "parse_chars s = Some (str, r) \<Longrightarrow> length r < length s"
proof (induction s arbitrary: str rule: parse_chars.induct)
  case 1
  then show ?case by simp
next
  case (2 c cs)
  then show ?case
    by (fastforce simp add: cons_fst_Some split: if_splits list.splits option.splits)
qed

lemma lex_digits_length: "lex_digits s = Some (t, r) \<Longrightarrow> length r \<le> length s"
  using length_dropWhile_le [of is_digit s]
  by (auto simp add: lex_digits_def split: if_splits)

lemma lex_int_length: "lex_int s = Some (t, r) \<Longrightarrow> length r < length s"
  using length_dropWhile_le [of is_digit "tl s"]
  by (auto simp add: lex_int_def split: list.splits if_splits)

lemma lex_frac_length: "lex_frac s = Some (t, r) \<Longrightarrow> length r \<le> length s"
  by (auto simp add: lex_frac_def cons_fst_Some split: list.splits if_splits dest!: lex_digits_length)

lemma lex_exp_length: "lex_exp s = Some (t, r) \<Longrightarrow> length r \<le> length s"
  by (auto simp add: lex_exp_def cons_fst_Some split: list.splits if_splits dest!: lex_digits_length)

lemma lex_number_length: "lex_number s = Some (t, r) \<Longrightarrow> length r < length s"
  by (auto simp add: lex_number_def Let_def split: list.splits if_splits option.splits prod.splits
      dest!: lex_int_length lex_frac_length lex_exp_length)

lemma strip_prefix_length: "strip_prefix pre s = Some r \<Longrightarrow> pre \<noteq> [] \<Longrightarrow> length r < length s"
  by (cases s) (auto simp add: strip_prefix_def split: if_splits)

lemma parse_length:
  "parse_value num n s = Some (v, r) \<Longrightarrow> length r < length s"
  "parse_elements num n s = Some (vs, r) \<Longrightarrow> length r < length s"
  "parse_members num n s = Some (kvs, r) \<Longrightarrow> length r < length s"
proof (induction num n s and num n s and num n s arbitrary: v r and vs r and kvs r
    rule: parse_value_parse_elements_parse_members.induct)
  case (1 num s)
  then show ?case by simp
next
  case (2 num n s)
  obtain c cs where s: "skip_ws s = c # cs"
    using "2.prems" by (cases "skip_ws s") simp_all
  then have cs: "length cs < length s"
    by (rule skip_ws_Cons_length)
  consider (str) "c = 0x22" | (arr) "c \<noteq> 0x22" "c = 0x5B" | (obj) "c \<noteq> 0x22" "c \<noteq> 0x5B" "c = 0x7B"
    | (other) "c \<noteq> 0x22" "c \<noteq> 0x5B" "c \<noteq> 0x7B"
    by blast
  then show ?case
  proof cases
    case str
    then show ?thesis
      using "2.prems" s cs by (auto split: option.splits dest!: parse_chars_length)
  next
    case arr
    obtain d ds where d: "skip_ws cs = d # ds"
      using "2.prems" s arr by (cases "skip_ws cs") simp_all
    show ?thesis
    proof (cases "d = 0x5D")
      case True
      then show ?thesis
        using "2.prems" s arr d cs skip_ws_Cons_length [OF d] by auto
    next
      case False
      then obtain vs where "parse_elements num n cs = Some (vs, r)"
        using "2.prems" s arr d by (auto split: option.splits)
      then have "length r < length cs"
        using "2.IH"(1) s arr d False by simp
      then show ?thesis using cs by simp
    qed
  next
    case obj
    obtain d ds where d: "skip_ws cs = d # ds"
      using "2.prems" s obj by (cases "skip_ws cs") simp_all
    show ?thesis
    proof (cases "d = 0x7D")
      case True
      then show ?thesis
        using "2.prems" s obj d cs skip_ws_Cons_length [OF d] by auto
    next
      case False
      then obtain kvs where "parse_members num n cs = Some (kvs, r)"
        using "2.prems" s obj d by (auto split: option.splits)
      then have "length r < length cs"
        using "2.IH"(2) s obj d False by simp
      then show ?thesis using cs by simp
    qed
  next
    case other
    have "length r < length (c # cs)"
      using "2.prems" s other
      by (auto simp add: js_def split: if_splits option.splits
          dest!: strip_prefix_length lex_number_length)
    then show ?thesis using cs by simp
  qed
next
  case (3 num s)
  then show ?case by simp
next
  case (4 num n s)
  obtain v r1 where v: "parse_value num n s = Some (v, r1)"
    using "4.prems" by (auto split: option.splits)
  then have r1: "length r1 < length s"
    using "4.IH"(1) by simp
  obtain c cs where c: "skip_ws r1 = c # cs"
    using "4.prems" v by (cases "skip_ws r1") simp_all
  then have cs: "length cs < length r1"
    by (rule skip_ws_Cons_length)
  show ?case
  proof (cases "c = 0x2C")
    case True
    then obtain vs' where "parse_elements num n cs = Some (vs', r)"
      using "4.prems" v c by (auto simp add: cons_fst_Some)
    then have "length r < length cs"
      using "4.IH"(2) v c True by simp
    then show ?thesis using cs r1 by simp
  next
    case False
    then show ?thesis
      using "4.prems" v c cs r1 by (auto split: if_splits)
  qed
next
  case (5 num s)
  then show ?case by simp
next
  case (6 num n s)
  obtain q qs where q: "skip_ws s = q # qs" "q = 0x22"
    using "6.prems" by (cases "skip_ws s") (auto split: if_splits)
  then have qs: "length qs < length s"
    using skip_ws_Cons_length by blast
  obtain k r0 where k: "parse_chars qs = Some (k, r0)"
    using "6.prems" q by (auto split: option.splits)
  then have r0: "length r0 < length qs"
    by (rule parse_chars_length)
  obtain c cs where c: "skip_ws r0 = c # cs" "c = 0x3A"
    using "6.prems" q k by (cases "skip_ws r0") (auto split: if_splits)
  then have cs: "length cs < length r0"
    using skip_ws_Cons_length by blast
  obtain v r1 where v: "parse_value num n cs = Some (v, r1)"
    using "6.prems" q k c by (auto split: option.splits)
  then have r1: "length r1 < length cs"
    using "6.IH"(1) q k c by simp
  obtain d ds where d: "skip_ws r1 = d # ds"
    using "6.prems" q k c v by (cases "skip_ws r1") simp_all
  then have ds: "length ds < length r1"
    by (rule skip_ws_Cons_length)
  show ?case
  proof (cases "d = 0x2C")
    case True
    then obtain kvs' where "parse_members num n ds = Some (kvs', r)"
      using "6.prems" q k c v d by (auto simp add: cons_fst_Some)
    then have "length r < length ds"
      using "6.IH"(2) q k c v d True by simp
    then show ?thesis using ds r1 cs r0 qs by simp
  next
    case False
    then show ?thesis
      using "6.prems" q k c v d ds r1 cs r0 qs by (auto split: if_splits)
  qed
qed

lemma parse_fuel:
  "parse_value num n s = Some (v, r) \<Longrightarrow> length s - length r < m \<Longrightarrow>
     parse_value num m s = Some (v, r)"
  "parse_elements num n s = Some (vs, r) \<Longrightarrow> length s - length r < m \<Longrightarrow>
     parse_elements num m s = Some (vs, r)"
  "parse_members num n s = Some (kvs, r) \<Longrightarrow> length s - length r < m \<Longrightarrow>
     parse_members num m s = Some (kvs, r)"
proof (induction num n s and num n s and num n s arbitrary: v r m and vs r m and kvs r m
    rule: parse_value_parse_elements_parse_members.induct)
  case (1 num s)
  then show ?case by simp
next
  case (2 num n s)
  have r: "length r < length s"
    using "2.prems"(1) by (rule parse_length)
  then obtain m' where m: "m = Suc m'"
    using "2.prems"(2) by (cases m) simp_all
  obtain c cs where s: "skip_ws s = c # cs"
    using "2.prems" by (cases "skip_ws s") simp_all
  then have cs: "length cs < length s"
    by (rule skip_ws_Cons_length)
  consider (arr) "c \<noteq> 0x22" "c = 0x5B" | (obj) "c \<noteq> 0x22" "c \<noteq> 0x5B" "c = 0x7B"
    | (other) "c = 0x22 \<or> (c \<noteq> 0x5B \<and> c \<noteq> 0x7B)"
    by blast
  then show ?case
  proof cases
    case arr
    obtain d ds where d: "skip_ws cs = d # ds"
      using "2.prems" s arr by (cases "skip_ws cs") simp_all
    show ?thesis
    proof (cases "d = 0x5D")
      case True
      then show ?thesis
        using "2.prems" s arr d m by simp
    next
      case False
      then obtain vs where vs: "parse_elements num n cs = Some (vs, r)" "v = JArr vs"
        using "2.prems" s arr d by (auto split: option.splits)
      have "length r < length cs"
        using vs(1) by (rule parse_length)
      then have "length cs - length r < m'"
        using "2.prems"(2) m cs by simp
      then have "parse_elements num m' cs = Some (vs, r)"
        by (rule "2.IH"(1) [OF s arr d False vs(1)])
      then show ?thesis
        using s arr d False vs(2) m by simp
    qed
  next
    case obj
    obtain d ds where d: "skip_ws cs = d # ds"
      using "2.prems" s obj by (cases "skip_ws cs") simp_all
    show ?thesis
    proof (cases "d = 0x7D")
      case True
      then show ?thesis
        using "2.prems" s obj d m by simp
    next
      case False
      then obtain kvs where kvs: "parse_members num n cs = Some (kvs, r)"
        "v = JObj (foldl CreateDataProperty [] kvs)"
        using "2.prems" s obj d by (auto split: option.splits)
      have "length r < length cs"
        using kvs(1) by (rule parse_length)
      then have "length cs - length r < m'"
        using "2.prems"(2) m cs by simp
      then have "parse_members num m' cs = Some (kvs, r)"
        by (rule "2.IH"(2) [OF s obj d False kvs(1)])
      then show ?thesis
        using s obj d False kvs(2) m by simp
    qed
  next
    case other
    then have "parse_value num (Suc m') s = parse_value num (Suc n) s"
      using s by auto
    then show ?thesis
      using "2.prems"(1) m by simp
  qed
next
  case (3 num s)
  then show ?case by simp
next
  case (4 num n s)
  have r: "length r < length s"
    using "4.prems"(1) by (rule parse_length)
  then obtain m' where m: "m = Suc m'"
    using "4.prems"(2) by (cases m) simp_all
  obtain v r1 where v: "parse_value num n s = Some (v, r1)"
    using "4.prems" by (auto split: option.splits)
  then have r1: "length r1 < length s"
    by (rule parse_length)
  obtain c cs where c: "skip_ws r1 = c # cs"
    using "4.prems" v by (cases "skip_ws r1") simp_all
  then have cs: "length cs < length r1"
    by (rule skip_ws_Cons_length)
  show ?case
  proof (cases "c = 0x2C")
    case True
    then obtain vs' where vs': "parse_elements num n cs = Some (vs', r)" "vs = v # vs'"
      using "4.prems" v c by (auto simp add: cons_fst_Some)
    have rcs: "length r < length cs"
      using vs'(1) by (rule parse_length)
    then have "length s - length r1 < m'"
      using "4.prems"(2) m cs r1 by simp
    then have pv: "parse_value num m' s = Some (v, r1)"
      by (rule "4.IH"(1) [OF v])
    have "length cs - length r < m'"
      using "4.prems"(2) m cs r1 rcs by simp
    then have "parse_elements num m' cs = Some (vs', r)"
      by (rule "4.IH"(2) [OF v refl c True vs'(1)])
    then show ?thesis
      using pv c True vs'(2) m by (simp add: cons_fst_def)
  next
    case False
    then have end_: "c = 0x5D" "vs = [v]" "r = cs"
      using "4.prems" v c by (auto split: if_splits)
    then have "length s - length r1 < m'"
      using "4.prems"(2) m cs r1 by simp
    then have "parse_value num m' s = Some (v, r1)"
      by (rule "4.IH"(1) [OF v])
    then show ?thesis
      using c False end_ m by simp
  qed
next
  case (5 num s)
  then show ?case by simp
next
  case (6 num n s)
  have r: "length r < length s"
    using "6.prems"(1) by (rule parse_length)
  then obtain m' where m: "m = Suc m'"
    using "6.prems"(2) by (cases m) simp_all
  obtain q qs where q: "skip_ws s = q # qs" "q = 0x22"
    using "6.prems" by (cases "skip_ws s") (auto split: if_splits)
  then have qs: "length qs < length s"
    using skip_ws_Cons_length by blast
  have nq: "\<not> q \<noteq> 0x22"
    using q(2) by simp
  obtain k r0 where k: "parse_chars qs = Some (k, r0)"
    using "6.prems" q by (auto split: option.splits)
  then have r0: "length r0 < length qs"
    by (rule parse_chars_length)
  obtain c cs where c: "skip_ws r0 = c # cs" "c = 0x3A"
    using "6.prems" q k by (cases "skip_ws r0") (auto split: if_splits)
  then have cs: "length cs < length r0"
    using skip_ws_Cons_length by blast
  have nc: "\<not> c \<noteq> 0x3A"
    using c(2) by simp
  obtain v r1 where v: "parse_value num n cs = Some (v, r1)"
    using "6.prems" q k c by (auto split: option.splits)
  then have r1: "length r1 < length cs"
    by (rule parse_length)
  obtain d ds where d: "skip_ws r1 = d # ds"
    using "6.prems" q k c v by (cases "skip_ws r1") simp_all
  then have ds: "length ds < length r1"
    by (rule skip_ws_Cons_length)
  show ?case
  proof (cases "d = 0x2C")
    case True
    then obtain kvs' where kvs': "parse_members num n ds = Some (kvs', r)" "kvs = (k, v) # kvs'"
      using "6.prems" q k c v d by (auto simp add: cons_fst_Some)
    have rds: "length r < length ds"
      using kvs'(1) by (rule parse_length)
    then have "length cs - length r1 < m'"
      using "6.prems"(2) m ds r1 cs r0 qs by simp
    then have pv: "parse_value num m' cs = Some (v, r1)"
      by (rule "6.IH"(1) [OF q(1) nq k refl c(1) nc v])
    have "length ds - length r < m'"
      using "6.prems"(2) m ds r1 cs r0 qs rds by simp
    then have "parse_members num m' ds = Some (kvs', r)"
      by (rule "6.IH"(2) [OF q(1) nq k refl c(1) nc v refl d True kvs'(1)])
    then show ?thesis
      using pv q k c d True kvs'(2) m by (simp add: cons_fst_def)
  next
    case False
    then have end_: "d = 0x7D" "kvs = [(k, v)]" "r = ds"
      using "6.prems" q k c v d by (auto split: if_splits)
    then have "length cs - length r1 < m'"
      using "6.prems"(2) m ds r1 cs r0 qs by simp
    then have "parse_value num m' cs = Some (v, r1)"
      by (rule "6.IH"(1) [OF q(1) nq k refl c(1) nc v])
    then show ?thesis
      using q k c d False end_ m by simp
  qed
qed

lemma parse_value_fuel_enough:
  "parse_value num n s = Some (v, r) \<Longrightarrow> parse_value num (Suc (length s)) s = Some (v, r)"
  by (rule parse_fuel(1)) simp_all

lemma JSON_parse_any_fuel:
  "parse_value num n s = Some (v, r) \<Longrightarrow> skip_ws r = [] \<Longrightarrow> JSON_parse num s = Some v"
  using parse_value_fuel_enough [of num n s v r]
  by (simp add: JSON_parse_def del: parse_value.simps)

section \<open>Recipes and responses\<close>

lemma example_recipe_parse:
  "JSON_parse num example_recipe_text = Some (recipe_to_json example_recipe)"
  by code_simp

lemma stringify_url_thumb:
  "JSON_stringify (JObj [(js ''url'', JStr l), (js ''thumb'', JStr t)]) 2 =
     [0x7B, 0x0A] @ js ''  \"url\": '' @ QuoteJSONString l @ [0x2C, 0x0A]
       @ js ''  \"thumb\": '' @ QuoteJSONString t @ [0x0A, 0x7D]"
  by (simp add: stringify_eval)

lemma plain_url_thumb: "plain (JObj [(js ''url'', JStr l), (js ''thumb'', JStr t)])"
  by (simp add: schema_keys_not_indices)

lemma getRecipeFromAI_try_Inr:
  "getRecipeFromAI_try p openai fn = Inr r \<Longrightarrow>
   \<exists>v. r = \<lparr>status = 200, headers = Headers [(js ''content-type'', js ''application/json'')],
              body = JSON_stringify v 2\<rparr>"
  by (auto simp add: getRecipeFromAI_try_def Let_def Response_new_json
      split: sum.splits list.splits if_splits option.splits)

lemma getImageFromWeb_try_Inr:
  "getImageFromWeb_try p q e = Inr r \<Longrightarrow>
   \<exists>l t. r = \<lparr>status = 200, headers = Headers [(js ''content-type'', js ''application/json'')],
                body = JSON_stringify (JObj [(js ''url'', JStr l), (js ''thumb'', JStr t)]) 2\<rparr>"
  by (auto simp add: getImageFromWeb_try_def Response_new_json
      split: sum.splits list.splits if_splits option.splits)

lemma catch_response_parse:
  "JSON_parse num (body (catch_response y)) = Some (JObj [(js ''error'', JStr (error_message y))])"
proof -
  have "plain (JObj [(js ''error'', JStr (error_message y))])"
    by (simp add: schema_keys_not_indices)
  then show ?thesis
    by (simp add: catch_response_eq JSON_parse_stringify)
qed

lemma network_down_body:
  "JSON_stringify (JObj [(js ''error'', JStr (js ''network down''))]) 2 =
     [0x7B, 0x0A] @ js ''  \"error\": \"network down\"'' @ [0x0A, 0x7D]"
  by (simp add: stringify_eval)

lemma fetch_single_invalid:
  "\<not> truthy (map_of (searchParams req) (js ''foodName'')) \<Longrightarrow>
   fetch_single p req e =
     \<lparr>status = 400, headers = Headers [(js ''content-type'', js ''application/json'')],
      body = js ''{\"error\":\"foodName parameter is required\"}''\<rparr>"
  by (simp add: fetch_single_def Let_def foodName_required_body Response_new_json)

lemma digits_value_snoc: "digits_value (xs @ [c]) = 10 * digits_value xs + uint (c - 0x30)"
  by (simp add: digits_value_def)

lemma small_digit_cases:
  "d < 10 \<Longrightarrow> d = 0 \<or> d = 1 \<or> d = 2 \<or> d = 3 \<or> d = 4 \<or> d = 5 \<or> d = 6 \<or> d = 7 \<or> d = 8 \<or> d = (9::nat)"
  by arith

lemma digit_char:
  assumes "d < 10"
  shows "is_digit (0x30 + of_nat d)" "uint ((0x30 + of_nat d :: jschar) - 0x30) = int d"
    "d \<noteq> 0 \<Longrightarrow> (0x30 + of_nat d :: jschar) \<noteq> 0x30"
  using small_digit_cases [OF assms] by (auto simp add: is_digit_def)

lemma decimal_digits: "list_all is_digit (decimal n)"
proof (induction n rule: decimal.induct)
  case (1 n)
  show ?case
  proof (cases "n < 10")
    case True
    then show ?thesis
      by (subst decimal.simps) (simp add: digit_char)
  next
    case False
    moreover have "n mod 10 < 10" by simp
    ultimately show ?thesis
      using 1 by (subst decimal.simps) (simp add: digit_char)
  qed
qed

lemma decimal_value: "digits_value (decimal n) = int n"
proof (induction n rule: decimal.induct)
  case (1 n)
  show ?case
  proof (cases "n < 10")
    case True
    then have "decimal n = [] @ [0x30 + of_nat n]"
      by (subst decimal.simps) simp
    then show ?thesis
      using True by (simp only: digits_value_snoc digit_char) (simp add: digits_value_def)
  next
    case False
    have m: "n mod 10 < 10" by simp
    have "decimal n = decimal (n div 10) @ [0x30 + of_nat (n mod 10)]"
      using False by (subst decimal.simps) simp
    then have "digits_value (decimal n) = 10 * int (n div 10) + int (n mod 10)"
      using 1 False by (simp only: digits_value_snoc digit_char(2) [OF m]) simp
    then show ?thesis
      by (simp add: zdiv_int zmod_int)
  qed
qed

lemma decimal_positive: "0 < n \<Longrightarrow> \<exists>c cs. decimal n = c # cs \<and> c \<noteq> 0x30"
proof (induction n rule: decimal.induct)
  case (1 n)
  show ?case
  proof (cases "n < 10")
    case True
    then have "decimal n = [0x30 + of_nat n]"
      by (subst decimal.simps) simp
    then show ?thesis
      using True "1.prems" digit_char(3) [of n] by simp
  next
    case False
    then have "0 < n div 10" by simp
    then obtain c cs where "decimal (n div 10) = c # cs" "c \<noteq> 0x30"
      using "1.IH" False by blast
    moreover have "decimal n = decimal (n div 10) @ [0x30 + of_nat (n mod 10)]"
      using False by (subst decimal.simps) simp
    ultimately show ?thesis by simp
  qed
qed

lemma decimal_canonical:
  "(case decimal n of [] \<Rightarrow> False | c # cs \<Rightarrow> cs = [] \<or> c \<noteq> 0x30)"
proof (cases "n = 0")
  case True
  then have "decimal n = [0x30]"
    by (subst decimal.simps) simp
  then show ?thesis by simp
next
  case False
  then obtain c cs where "decimal n = c # cs" "c \<noteq> 0x30"
    using decimal_positive [of n] by auto
  then show ?thesis by simp
qed

lemma decimal_500: "decimal 500 = js ''500''"
  by code_simp

lemma google_error_500_body:
  "JSON_stringify (JObj [(js ''error'', JStr (js ''Google API error: '' @ js ''500''))]) 2 =
     [0x7B, 0x0A] @ js ''  \"error\": \"Google API error: 500\"'' @ [0x0A, 0x7D]"
  by (simp add: stringify_eval)

lemma google_error_not_no_results:
  "JSON_stringify (JObj [(js ''error'', JStr (js ''Google API error: '' @ d))]) 2 \<noteq>
   [0x7B, 0x0A] @ js ''  \"error\": \"No results found on Google\"'' @ [0x0A, 0x7D]"
proof
  let ?a = "JObj [(js ''error'', JStr (js ''Google API error: '' @ d))]"
  let ?b = "JObj [(js ''error'', JStr (js ''No results found on Google''))]"
  assume "JSON_stringify ?a 2 =
    [0x7B, 0x0A] @ js ''  \"error\": \"No results found on Google\"'' @ [0x0A, 0x7D]"
  then have "JSON_stringify ?a 2 = JSON_stringify ?b 2"
    by (simp only: error_body_text)
  then have "JSON_parse id (JSON_stringify ?a 2) = JSON_parse id (JSON_stringify ?b 2)"
    by simp
  moreover have "plain ?a" "plain ?b"
    by (simp_all add: schema_keys_not_indices)
  ultimately have "?a = ?b"
    by (simp only: JSON_parse_stringify option.inject)
  then show False
    by (simp add: js_def)
qed

lemma not_json_parse: "JSON_parse num (js ''Sorry, no recipe'') = None"
  by code_simp

lemma more_error_bodies:
  "JSON_stringify (JObj [(js ''error'', JStr (js ''Cannot read properties of undefined''))]) 2 =
     [0x7B, 0x0A] @ js ''  \"error\": \"Cannot read properties of undefined\"'' @ [0x0A, 0x7D]"
  "JSON_stringify (JObj [(js ''error'', JStr (js ''Unexpected end of JSON input''))]) 2 =
     [0x7B, 0x0A] @ js ''  \"error\": \"Unexpected end of JSON input\"'' @ [0x0A, 0x7D]"
  "JSON_stringify (JObj [(js ''error'', JStr (js ''No response content''))]) 2 =
     [0x7B, 0x0A] @ js ''  \"error\": \"No response content\"'' @ [0x0A, 0x7D]"
  by (simp_all add: stringify_eval)

section \<open>The claims\<close>

text \<open>
  C1.  The specification asks for status 400 on \<open>GET /getRecipe\<close> without \<open>foodName\<close> (or
  with an empty one).  The handler builds that response with status 400, but the response
  the router returns has status 200; the body is the one the specification gives.  The variant
  without a router returns status 400 for the same request.
\<close>

theorem getRecipe_missing_foodName_routed:
  "status (fetch p (example_request (js ''/getRecipe'') []) e) = 200
   \<and> body (fetch p (example_request (js ''/getRecipe'') []) e) =
       js ''{\"error\":\"foodName parameter is required\"}''
   \<and> status (fetch p (example_request (js ''/getRecipe'') [(js ''foodName'', [])]) e) = 200
   \<and> body (fetch p (example_request (js ''/getRecipe'') [(js ''foodName'', [])]) e) =
       js ''{\"error\":\"foodName parameter is required\"}''
   \<and> status (getRecipeFromAI p openai None) = 400
   \<and> status (fetch_single p (example_request (js ''/getRecipe'') []) e) = 400"
  by (simp add: fetch_getRecipe getRecipeFromAI_invalid fetch_single_invalid example_request_def)

text \<open>
  C2.  For valid (non-empty) inputs, whatever the outbound call and the parsing yield,
  each handler returns a response and throws nothing.  A value thrown by the outbound
  call (by \<open>chat.completions.create\<close>; by \<open>encodeURIComponent\<close>, \<open>fetch\<close> or
  \<open>json()\<close>), the \<open>TypeError\<close> of a completion without choices, the
  \<open>SyntaxError\<close> of a content that is not JSON and the missing content all end in the
  \<open>catch\<close> clause.  Its response has status 200, the JSON content type and the body
  \<open>{error: message}\<close>: the message of the thrown \<open>Error\<close>, or
  \<open>An unknown error occurred\<close> for a thrown value that is not an \<open>Error\<close>; the
  body parses to that object.  Every response of a handler is either such an error
  response or its success response.
\<close>

theorem handlers_catch_every_failure:
  assumes "truthy foodName" and "truthy foodOrIngName"
  shows "(openai (recipe_params (string_of foodName)) = Inl x \<longrightarrow>
            getRecipeFromAI p openai foodName = catch_response x)
       \<and> (openai (recipe_params (string_of foodName)) = Inr chatCompletion
            \<and> choices chatCompletion = [] \<longrightarrow>
            getRecipeFromAI p openai foodName =
              catch_response (Error (TypeError_message p (js ''finish_reason''))))
       \<and> (openai (recipe_params (string_of foodName)) = Inr chatCompletion
            \<and> choices chatCompletion = choice0 # others
            \<and> finish_reason choice0 \<noteq> js ''length''
            \<and> \<not> truthy (refusal (message choice0))
            \<and> content (message choice0) = Some content0 \<and> content0 \<noteq> []
            \<and> JSON_parse (NumberText p) content0 = None \<longrightarrow>
            getRecipeFromAI p openai foodName =
              catch_response (Error (SyntaxError_message p content0)))
       \<and> (openai (recipe_params (string_of foodName)) = Inr chatCompletion
            \<and> choices chatCompletion = choice0 # others
            \<and> finish_reason choice0 \<noteq> js ''length''
            \<and> \<not> truthy (refusal (message choice0))
            \<and> \<not> truthy (content (message choice0)) \<longrightarrow>
            getRecipeFromAI p openai foodName =
              catch_response (Error (js ''No response content'')))
       \<and> (encodeURIComponent p (string_of foodOrIngName) = Inl x \<longrightarrow>
            getImageFromWeb p foodOrIngName e = catch_response x)
       \<and> (encodeURIComponent p (string_of foodOrIngName) = Inr q
            \<and> node_fetch p (search_url e q) = Inl x \<longrightarrow>
            getImageFromWeb p foodOrIngName e = catch_response x)
       \<and> (encodeURIComponent p (string_of foodOrIngName) = Inr q
            \<and> node_fetch p (search_url e q) = Inr response
            \<and> ok response \<and> upstream_json response = Inl x \<longrightarrow>
            getImageFromWeb p foodOrIngName e = catch_response x)
       \<and> catch_response (Error m) =
            \<lparr>status = 200, headers = Headers [(js ''content-type'', js ''application/json'')],
             body = JSON_stringify (JObj [(js ''error'', JStr m)]) 2\<rparr>
       \<and> catch_response NonError =
            \<lparr>status = 200, headers = Headers [(js ''content-type'', js ''application/json'')],
             body = JSON_stringify (JObj [(js ''error'', JStr (js ''An unknown error occurred''))]) 2\<rparr>
       \<and> JSON_parse (NumberText p) (body (catch_response y)) =
            Some (JObj [(js ''error'', JStr (error_message y))])
       \<and> ((\<exists>z. getRecipeFromAI p openai foodName = catch_response z)
            \<or> (\<exists>v. getRecipeFromAI p openai foodName =
                  \<lparr>status = 200, headers = Headers [(js ''content-type'', js ''application/json'')],
                   body = JSON_stringify v 2\<rparr>))
       \<and> ((\<exists>z. getImageFromWeb p foodOrIngName e = catch_response z)
            \<or> (\<exists>l t. getImageFromWeb p foodOrIngName e =
                  \<lparr>status = 200, headers = Headers [(js ''content-type'', js ''application/json'')],
                   body = JSON_stringify (JObj [(js ''url'', JStr l), (js ''thumb'', JStr t)]) 2\<rparr>))"
proof -
  note recipe = getRecipeFromAI_valid [OF assms(1), of p openai]
  note image = getImageFromWeb_valid [OF assms(2), of p e]
  have r1: "openai (recipe_params (string_of foodName)) = Inl x \<longrightarrow>
            getRecipeFromAI p openai foodName = catch_response x"
    by (simp add: recipe getRecipeFromAI_try_def)
  have r2: "openai (recipe_params (string_of foodName)) = Inr chatCompletion
            \<and> choices chatCompletion = [] \<longrightarrow>
            getRecipeFromAI p openai foodName =
              catch_response (Error (TypeError_message p (js ''finish_reason'')))"
    by (simp add: recipe getRecipeFromAI_try_def)
  have r3: "openai (recipe_params (string_of foodName)) = Inr chatCompletion
            \<and> choices chatCompletion = choice0 # others
            \<and> finish_reason choice0 \<noteq> js ''length''
            \<and> \<not> truthy (refusal (message choice0))
            \<and> content (message choice0) = Some content0 \<and> content0 \<noteq> []
            \<and> JSON_parse (NumberText p) content0 = None \<longrightarrow>
            getRecipeFromAI p openai foodName =
              catch_response (Error (SyntaxError_message p content0))"
    by (simp add: recipe getRecipeFromAI_try_def)
  have r4: "openai (recipe_params (string_of foodName)) = Inr chatCompletion
            \<and> choices chatCompletion = choice0 # others
            \<and> finish_reason choice0 \<noteq> js ''length''
            \<and> \<not> truthy (refusal (message choice0))
            \<and> \<not> truthy (content (message choice0)) \<longrightarrow>
            getRecipeFromAI p openai foodName =
              catch_response (Error (js ''No response content''))"
    by (simp add: recipe getRecipeFromAI_try_def)
  have i1: "encodeURIComponent p (string_of foodOrIngName) = Inl x \<longrightarrow>
            getImageFromWeb p foodOrIngName e = catch_response x"
    by (simp add: image getImageFromWeb_try_def)
  have i2: "encodeURIComponent p (string_of foodOrIngName) = Inr q
            \<and> node_fetch p (search_url e q) = Inl x \<longrightarrow>
            getImageFromWeb p foodOrIngName e = catch_response x"
    by (simp add: image getImageFromWeb_try_def)
  have i3: "encodeURIComponent p (string_of foodOrIngName) = Inr q
            \<and> node_fetch p (search_url e q) = Inr response
            \<and> ok response \<and> upstream_json response = Inl x \<longrightarrow>
            getImageFromWeb p foodOrIngName e = catch_response x"
    by (simp add: image getImageFromWeb_try_def)
  have c1: "catch_response (Error m) =
            \<lparr>status = 200, headers = Headers [(js ''content-type'', js ''application/json'')],
             body = JSON_stringify (JObj [(js ''error'', JStr m)]) 2\<rparr>"
    and c2: "catch_response NonError =
            \<lparr>status = 200, headers = Headers [(js ''content-type'', js ''application/json'')],
             body = JSON_stringify (JObj [(js ''error'', JStr (js ''An unknown error occurred''))]) 2\<rparr>"
    by (simp_all add: catch_response_eq error_message_def)
  have c3: "JSON_parse (NumberText p) (body (catch_response y)) =
            Some (JObj [(js ''error'', JStr (error_message y))])"
    by (rule catch_response_parse)
  have t1: "(\<exists>z. getRecipeFromAI p openai foodName = catch_response z)
            \<or> (\<exists>v. getRecipeFromAI p openai foodName =
                  \<lparr>status = 200, headers = Headers [(js ''content-type'', js ''application/json'')],
                   body = JSON_stringify v 2\<rparr>)"
  proof (cases "getRecipeFromAI_try p openai (string_of foodName)")
    case (Inl z)
    then show ?thesis by (auto simp add: recipe)
  next
    case (Inr r)
    then show ?thesis using getRecipeFromAI_try_Inr [OF Inr] by (auto simp add: recipe)
  qed
  have t2: "(\<exists>z. getImageFromWeb p foodOrIngName e = catch_response z)
            \<or> (\<exists>l t. getImageFromWeb p foodOrIngName e =
                  \<lparr>status = 200, headers = Headers [(js ''content-type'', js ''application/json'')],
                   body = JSON_stringify (JObj [(js ''url'', JStr l), (js ''thumb'', JStr t)]) 2\<rparr>)"
  proof (cases "getImageFromWeb_try p (string_of foodOrIngName) e")
    case (Inl z)
    then show ?thesis by (auto simp add: image)
  next
    case (Inr r)
    then show ?thesis using getImageFromWeb_try_Inr [OF Inr] by (auto simp add: image)
  qed
  from r1 r2 r3 r4 i1 i2 i3 c1 c2 c3 t1 t2 show ?thesis
    by (intro conjI)
qed

theorem handlers_catch_every_failure_witness:
  "truthy (Some (js ''lasagna'')) \<and> truthy (Some (js ''tomato''))
   \<and> (\<lambda>params. Inl NonError) (recipe_params (string_of (Some (js ''lasagna'')))) =
       (Inl NonError :: thrown + chat_completion)
   \<and> body (getRecipeFromAI
         (example_platform (Inl NonError) (Inl (Error (js ''network down''))))
         (\<lambda>params. Inl NonError) (Some (js ''lasagna''))) =
       [0x7B, 0x0A] @ js ''  \"error\": \"An unknown error occurred\"'' @ [0x0A, 0x7D]
   \<and> choices \<lparr>choices = []\<rparr> = []
   \<and> body (getRecipeFromAI
         (example_platform (Inl NonError) (Inl (Error (js ''network down''))))
         (\<lambda>params. Inr \<lparr>choices = []\<rparr>) (Some (js ''lasagna''))) =
       [0x7B, 0x0A] @ js ''  \"error\": \"Cannot read properties of undefined\"'' @ [0x0A, 0x7D]
   \<and> JSON_parse (NumberText (example_platform (Inl NonError) (Inl (Error (js ''network down'')))))
         (js ''Sorry, no recipe'') = None
   \<and> body (getRecipeFromAI
         (example_platform (Inl NonError) (Inl (Error (js ''network down''))))
         (\<lambda>params. Inr (example_completion (js ''stop'') None (Some (js ''Sorry, no recipe''))))
         (Some (js ''lasagna''))) =
       [0x7B, 0x0A] @ js ''  \"error\": \"Unexpected end of JSON input\"'' @ [0x0A, 0x7D]
   \<and> \<not> truthy (content (message (example_choice (js ''stop'') None (Some []))))
   \<and> body (getRecipeFromAI
         (example_platform (Inl NonError) (Inl (Error (js ''network down''))))
         (\<lambda>params. Inr (example_completion (js ''stop'') None (Some [])))
         (Some (js ''lasagna''))) =
       [0x7B, 0x0A] @ js ''  \"error\": \"No response content\"'' @ [0x0A, 0x7D]
   \<and> encodeURIComponent (example_platform (Inl NonError) (Inl (Error (js ''network down''))))
         (string_of (Some (js ''tomato''))) = Inr (js ''tomato'')
   \<and> node_fetch (example_platform (Inl NonError) (Inl (Error (js ''network down''))))
         (search_url example_env (js ''tomato'')) = Inl (Error (js ''network down''))
   \<and> body (getImageFromWeb
         (example_platform (Inl NonError) (Inl (Error (js ''network down''))))
         (Some (js ''tomato'')) example_env) =
       [0x7B, 0x0A] @ js ''  \"error\": \"network down\"'' @ [0x0A, 0x7D]
   \<and> ok \<lparr>upstream_status = 200, upstream_json = Inl NonError\<rparr>
   \<and> body (getImageFromWeb
         (example_platform (Inl NonError)
            (Inr \<lparr>upstream_status = 200, upstream_json = Inl NonError\<rparr>))
         (Some (js ''tomato'')) example_env) =
       [0x7B, 0x0A] @ js ''  \"error\": \"An unknown error occurred\"'' @ [0x0A, 0x7D]"
  using handlers_catch_every_failure
    [where foodName = "Some (js ''lasagna'')" and foodOrIngName = "Some (js ''tomato'')"
       and openai = "\<lambda>params. Inl NonError" and x = NonError
       and p = "example_platform (Inl NonError) (Inl (Error (js ''network down'')))"]
    handlers_catch_every_failure
    [where foodName = "Some (js ''lasagna'')" and foodOrIngName = "Some (js ''tomato'')"
       and openai = "\<lambda>params. Inr \<lparr>choices = []\<rparr>" and chatCompletion = "\<lparr>choices = []\<rparr>"
       and p = "example_platform (Inl NonError) (Inl (Error (js ''network down'')))"]
    handlers_catch_every_failure
    [where foodName = "Some (js ''lasagna'')" and foodOrIngName = "Some (js ''tomato'')"
       and openai = "\<lambda>params. Inr (example_completion (js ''stop'') None (Some (js ''Sorry, no recipe'')))"
       and chatCompletion = "example_completion (js ''stop'') None (Some (js ''Sorry, no recipe''))"
       and ?choice0.0 = "example_choice (js ''stop'') None (Some (js ''Sorry, no recipe''))"
       and others = "[]" and ?content0.0 = "js ''Sorry, no recipe''"
       and p = "example_platform (Inl NonError) (Inl (Error (js ''network down'')))"]
    handlers_catch_every_failure
    [where foodName = "Some (js ''lasagna'')" and foodOrIngName = "Some (js ''tomato'')"
       and openai = "\<lambda>params. Inr (example_completion (js ''stop'') None (Some []))"
       and chatCompletion = "example_completion (js ''stop'') None (Some [])"
       and ?choice0.0 = "example_choice (js ''stop'') None (Some [])"
       and others = "[]"
       and p = "example_platform (Inl NonError) (Inl (Error (js ''network down'')))"]
    handlers_catch_every_failure
    [where foodName = "Some (js ''lasagna'')" and foodOrIngName = "Some (js ''tomato'')"
       and openai = "\<lambda>params. Inl NonError" and x = "Error (js ''network down'')"
       and p = "example_platform (Inl NonError) (Inl (Error (js ''network down'')))"
       and q = "js ''tomato''" and e = example_env]
    handlers_catch_every_failure
    [where foodName = "Some (js ''lasagna'')" and foodOrIngName = "Some (js ''tomato'')"
       and openai = "\<lambda>params. Inl NonError" and x = NonError
       and p = "example_platform (Inl NonError)
            (Inr \<lparr>upstream_status = 200, upstream_json = Inl NonError\<rparr>)"
       and q = "js ''tomato''" and e = example_env
       and response = "\<lparr>upstream_status = 200, upstream_json = Inl NonError\<rparr>"]
  by (simp add: example_platform_def example_completion_def example_choice_def ok_def
      catch_response_eq error_message_def error_body_text network_down_body more_error_bodies
      not_json_parse)

text \<open>
  C3.  When the first choice of the completion has the finish reason \<open>length\<close>,
  \<open>getRecipeFromAI\<close> returns the error body with the message
  \<open>Incomplete response\<close>, whatever the refusal and the content of the message are:
  the check comes before the refusal check and before the content is parsed.
\<close>

theorem truncated_completion_incomplete_response:
  assumes "truthy foodName"
    and "openai (recipe_params (string_of foodName)) = Inr chatCompletion"
    and "choices chatCompletion = choice0 # others"
    and "finish_reason choice0 = js ''length''"
  shows "getRecipeFromAI p openai foodName =
           \<lparr>status = 200, headers = Headers [(js ''content-type'', js ''application/json'')],
            body = JSON_stringify (JObj [(js ''error'', JStr (js ''Incomplete response''))]) 2\<rparr>
         \<and> body (getRecipeFromAI p openai foodName) =
             [0x7B, 0x0A] @ js ''  \"error\": \"Incomplete response\"'' @ [0x0A, 0x7D]"
proof -
  have "getRecipeFromAI_try p openai (string_of foodName) = Inl (Error (js ''Incomplete response''))"
    using assms(2-4) by (simp add: getRecipeFromAI_try_def)
  then have "getRecipeFromAI p openai foodName = catch_response (Error (js ''Incomplete response''))"
    using assms(1) by (simp add: getRecipeFromAI_valid)
  then show ?thesis
    by (simp add: catch_response_eq error_message_def error_body_text)
qed

theorem truncated_completion_incomplete_response_witness:
  "truthy (Some (js ''lasagna''))
   \<and> (\<lambda>params. Inr (example_completion (js ''length'') (Some (js ''no'')) (Some (js ''{}''))))
        (recipe_params (string_of (Some (js ''lasagna'')))) =
       Inr (example_completion (js ''length'') (Some (js ''no'')) (Some (js ''{}'')))
   \<and> choices (example_completion (js ''length'') (Some (js ''no'')) (Some (js ''{}''))) =
       example_choice (js ''length'') (Some (js ''no'')) (Some (js ''{}'')) # []
   \<and> finish_reason (example_choice (js ''length'') (Some (js ''no'')) (Some (js ''{}''))) = js ''length''
   \<and> body (getRecipeFromAI (example_platform (Inl NonError) (Inl NonError))
        (\<lambda>params. Inr (example_completion (js ''length'') (Some (js ''no'')) (Some (js ''{}''))))
        (Some (js ''lasagna''))) =
       [0x7B, 0x0A] @ js ''  \"error\": \"Incomplete response\"'' @ [0x0A, 0x7D]"
  using truncated_completion_incomplete_response
    [of "Some (js ''lasagna'')"
        "\<lambda>params. Inr (example_completion (js ''length'') (Some (js ''no'')) (Some (js ''{}'')))"
        "example_completion (js ''length'') (Some (js ''no'')) (Some (js ''{}''))"
        "example_choice (js ''length'') (Some (js ''no'')) (Some (js ''{}''))" "[]"
        "example_platform (Inl NonError) (Inl NonError)"]
  by (simp add: example_completion_def example_choice_def error_body_text)

text \<open>
  C4.  When the completion is not truncated, carries no refusal, and its content parses
  to a JSON value that conforms to the recipe schema, \<open>getRecipeFromAI\<close> returns
  status 200 with the body \<open>JSON.stringify(JSON.parse(content), null, 2)\<close>, and
  parsing that body gives the parsed content again, so the recipe read from the body is
  the recipe read from the content, with its ingredients and instructions in the same
  order.  For every recipe, serialising its JSON value (with any indentation) and parsing
  the text gives the recipe back.
\<close>

theorem conformant_content_returned_unmodified:
  assumes "truthy foodName"
    and "openai (recipe_params (string_of foodName)) = Inr chatCompletion"
    and "choices chatCompletion = choice0 # others"
    and "finish_reason choice0 \<noteq> js ''length''"
    and "\<not> truthy (refusal (message choice0))"
    and "content (message choice0) = Some content0"
    and "JSON_parse (NumberText p) content0 = Some v"
    and "json_to_recipe v = Some r"
  shows "getRecipeFromAI p openai foodName =
           \<lparr>status = 200, headers = Headers [(js ''content-type'', js ''application/json'')],
            body = JSON_stringify v 2\<rparr>
         \<and> JSON_parse (NumberText p) (body (getRecipeFromAI p openai foodName)) = Some v
         \<and> Option.bind (JSON_parse (NumberText p) (body (getRecipeFromAI p openai foodName)))
               json_to_recipe = Some r
         \<and> Option.bind (JSON_parse num (JSON_stringify (recipe_to_json r') space))
               json_to_recipe = Some r'"
proof -
  have "content0 \<noteq> []"
    using assms(7) by (auto simp add: JSON_parse_empty)
  then have "getRecipeFromAI_try p openai (string_of foodName) =
          Inr (Response_new (BodyString (JSON_stringify v 2)) None json_headers)"
    using assms(2-7) by (simp add: getRecipeFromAI_try_def)
  then have resp: "getRecipeFromAI p openai foodName =
           \<lparr>status = 200, headers = Headers [(js ''content-type'', js ''application/json'')],
            body = JSON_stringify v 2\<rparr>"
    using assms(1) by (simp add: getRecipeFromAI_valid Response_new_json)
  have "plain v"
    using assms(8) by (rule recipe_plain)
  then have again: "JSON_parse (NumberText p) (JSON_stringify v 2) = Some v"
    by (rule JSON_parse_stringify)
  have "plain (recipe_to_json r')"
    using json_to_recipe_inverse by (rule recipe_plain)
  then have "JSON_parse num (JSON_stringify (recipe_to_json r') space) = Some (recipe_to_json r')"
    by (rule JSON_parse_stringify)
  then show ?thesis
    using resp again assms(8) by (simp add: json_to_recipe_inverse)
qed

theorem conformant_content_returned_unmodified_witness:
  "truthy (Some (js ''lasagna''))
   \<and> (\<lambda>params. Inr (example_completion (js ''stop'') None (Some example_recipe_text)))
        (recipe_params (string_of (Some (js ''lasagna'')))) =
       Inr (example_completion (js ''stop'') None (Some example_recipe_text))
   \<and> choices (example_completion (js ''stop'') None (Some example_recipe_text)) =
       example_choice (js ''stop'') None (Some example_recipe_text) # []
   \<and> finish_reason (example_choice (js ''stop'') None (Some example_recipe_text)) \<noteq> js ''length''
   \<and> \<not> truthy (refusal (message (example_choice (js ''stop'') None (Some example_recipe_text))))
   \<and> content (message (example_choice (js ''stop'') None (Some example_recipe_text))) =
       Some example_recipe_text
   \<and> JSON_parse (NumberText (example_platform (Inl NonError) (Inl NonError))) example_recipe_text =
       Some (recipe_to_json example_recipe)
   \<and> json_to_recipe (recipe_to_json example_recipe) = Some example_recipe
   \<and> body (getRecipeFromAI (example_platform (Inl NonError) (Inl NonError))
        (\<lambda>params. Inr (example_completion (js ''stop'') None (Some example_recipe_text)))
        (Some (js ''lasagna''))) = JSON_stringify (recipe_to_json example_recipe) 2
   \<and> Option.bind (JSON_parse (NumberText (example_platform (Inl NonError) (Inl NonError)))
        (body (getRecipeFromAI (example_platform (Inl NonError) (Inl NonError))
           (\<lambda>params. Inr (example_completion (js ''stop'') None (Some example_recipe_text)))
           (Some (js ''lasagna''))))) json_to_recipe = Some example_recipe"
  using conformant_content_returned_unmodified
    [of "Some (js ''lasagna'')"
        "\<lambda>params. Inr (example_completion (js ''stop'') None (Some example_recipe_text))"
        "example_completion (js ''stop'') None (Some example_recipe_text)"
        "example_choice (js ''stop'') None (Some example_recipe_text)" "[]"
        example_recipe_text "example_platform (Inl NonError) (Inl NonError)"
        "recipe_to_json example_recipe" example_recipe]
  by (simp add: example_completion_def example_choice_def example_recipe_parse
      json_to_recipe_inverse)

text \<open>
  C5.  For a non-empty query whose outbound request is answered: when the status of the
  answer is outside 200 to 299, \<open>getImageFromWeb\<close> returns the error body whose
  message is \<open>Google API error: \<close> followed by the status code, whatever the answer
  holds otherwise, and not the body that reports no results.  The status code is written
  as its decimal numeral: decimal digits only, without a leading zero, whose value is the
  status.  When the status is inside that range and the result list is absent or
  empty, it returns the error body with the message \<open>No results found on Google\<close>.
\<close>

theorem image_search_failures_in_order:
  assumes "truthy foodOrIngName"
    and "encodeURIComponent p (string_of foodOrIngName) = Inr q"
    and "node_fetch p (search_url e q) = Inr response"
  shows "(\<not> ok response \<longrightarrow>
            getImageFromWeb p foodOrIngName e =
              \<lparr>status = 200, headers = Headers [(js ''content-type'', js ''application/json'')],
               body = JSON_stringify
                        (JObj [(js ''error'',
                                JStr (js ''Google API error: '' @ decimal (upstream_status response)))]) 2\<rparr>
            \<and> body (getImageFromWeb p foodOrIngName e) \<noteq>
                [0x7B, 0x0A] @ js ''  \"error\": \"No results found on Google\"'' @ [0x0A, 0x7D]
            \<and> list_all is_digit (decimal (upstream_status response))
            \<and> digits_value (decimal (upstream_status response)) = int (upstream_status response)
            \<and> (case decimal (upstream_status response) of
                   [] \<Rightarrow> False
                 | c # cs \<Rightarrow> cs = [] \<or> c \<noteq> 0x30))
         \<and> (ok response \<and> upstream_json response = Inr data
               \<and> (items data = None \<or> items data = Some []) \<longrightarrow>
            getImageFromWeb p foodOrIngName e =
              \<lparr>status = 200, headers = Headers [(js ''content-type'', js ''application/json'')],
               body = [0x7B, 0x0A] @ js ''  \"error\": \"No results found on Google\"'' @ [0x0A, 0x7D]\<rparr>)"
proof (intro conjI impI)
  assume "\<not> ok response"
  then have "getImageFromWeb_try p (string_of foodOrIngName) e =
               Inl (Error (js ''Google API error: '' @ decimal (upstream_status response)))"
    using assms(2,3) by (simp add: getImageFromWeb_try_def)
  then have resp: "getImageFromWeb p foodOrIngName e =
              \<lparr>status = 200, headers = Headers [(js ''content-type'', js ''application/json'')],
               body = JSON_stringify
                        (JObj [(js ''error'',
                                JStr (js ''Google API error: '' @ decimal (upstream_status response)))]) 2\<rparr>"
    using assms(1) by (simp add: getImageFromWeb_valid catch_response_eq error_message_def)
  then show "getImageFromWeb p foodOrIngName e =
              \<lparr>status = 200, headers = Headers [(js ''content-type'', js ''application/json'')],
               body = JSON_stringify
                        (JObj [(js ''error'',
                                JStr (js ''Google API error: '' @ decimal (upstream_status response)))]) 2\<rparr>" .
  show "body (getImageFromWeb p foodOrIngName e) \<noteq>
          [0x7B, 0x0A] @ js ''  \"error\": \"No results found on Google\"'' @ [0x0A, 0x7D]"
    using google_error_not_no_results [of "decimal (upstream_status response)"]
    by (simp add: resp)
  show "list_all is_digit (decimal (upstream_status response))"
    by (rule decimal_digits)
  show "digits_value (decimal (upstream_status response)) = int (upstream_status response)"
    by (rule decimal_value)
  show "case decimal (upstream_status response) of
          [] \<Rightarrow> False
        | c # cs \<Rightarrow> cs = [] \<or> c \<noteq> 0x30"
    by (rule decimal_canonical)
next
  assume a: "ok response \<and> upstream_json response = Inr data
               \<and> (items data = None \<or> items data = Some [])"
  then have "getImageFromWeb_try p (string_of foodOrIngName) e =
               Inl (Error (js ''No results found on Google''))"
    using assms(2,3) by (auto simp add: getImageFromWeb_try_def)
  then show "getImageFromWeb p foodOrIngName e =
              \<lparr>status = 200, headers = Headers [(js ''content-type'', js ''application/json'')],
               body = [0x7B, 0x0A] @ js ''  \"error\": \"No results found on Google\"'' @ [0x0A, 0x7D]\<rparr>"
    using assms(1)
    by (simp add: getImageFromWeb_valid catch_response_eq error_message_def error_body_text)
qed

theorem image_search_failures_in_order_witness:
  "truthy (Some (js ''tomato''))
   \<and> encodeURIComponent (example_platform (Inl NonError) (Inr (example_answer 404 None)))
        (string_of (Some (js ''tomato''))) = Inr (js ''tomato'')
   \<and> node_fetch (example_platform (Inl NonError) (Inr (example_answer 404 None)))
        (search_url example_env (js ''tomato'')) = Inr (example_answer 404 None)
   \<and> \<not> ok (example_answer 404 None)
   \<and> body (getImageFromWeb (example_platform (Inl NonError) (Inr (example_answer 404 None)))
        (Some (js ''tomato'')) example_env) =
       [0x7B, 0x0A] @ js ''  \"error\": \"Google API error: 404\"'' @ [0x0A, 0x7D]
   \<and> \<not> ok (example_answer 500 (Some []))
   \<and> body (getImageFromWeb (example_platform (Inl NonError) (Inr (example_answer 500 (Some []))))
        (Some (js ''tomato'')) example_env) =
       [0x7B, 0x0A] @ js ''  \"error\": \"Google API error: 500\"'' @ [0x0A, 0x7D]
   \<and> digits_value (js ''500'') = 500
   \<and> ok (example_answer 200 (Some []))
   \<and> upstream_json (example_answer 200 (Some [])) = Inr \<lparr>items = Some []\<rparr>
   \<and> body (getImageFromWeb (example_platform (Inl NonError) (Inr (example_answer 200 (Some []))))
        (Some (js ''tomato'')) example_env) =
       [0x7B, 0x0A] @ js ''  \"error\": \"No results found on Google\"'' @ [0x0A, 0x7D]"
  using image_search_failures_in_order
    [of "Some (js ''tomato'')" "example_platform (Inl NonError) (Inr (example_answer 404 None))"
        "js ''tomato''" example_env "example_answer 404 None" "\<lparr>items = None\<rparr>"]
    image_search_failures_in_order
    [of "Some (js ''tomato'')" "example_platform (Inl NonError) (Inr (example_answer 500 (Some [])))"
        "js ''tomato''" example_env "example_answer 500 (Some [])" "\<lparr>items = Some []\<rparr>"]
    image_search_failures_in_order
    [of "Some (js ''tomato'')" "example_platform (Inl NonError) (Inr (example_answer 200 (Some [])))"
        "js ''tomato''" example_env "example_answer 200 (Some [])" "\<lparr>items = Some []\<rparr>"]
  by (simp add: example_platform_def example_answer_def ok_def decimal_404 decimal_500
      google_error_404_body google_error_500_body)

text \<open>
  C6.  When the image search answers with a status in 200 to 299 and a result list with
  at least one item, \<open>getImageFromWeb\<close> returns the object with \<open>url\<close> the
  \<open>link\<close> of the first item and \<open>thumb\<close> its \<open>image.thumbnailLink\<close>,
  serialised with an indentation of 2; the response routed for \<open>/getImage\<close> has
  status 200 and that body, and the body parses to that object.
\<close>

theorem first_image_returned:
  assumes "pathname req = js ''/getImage''"
    and "map_of (searchParams req) (js ''foodOrIngName'') = Some name"
    and "name \<noteq> []"
    and "encodeURIComponent p name = Inr q"
    and "node_fetch p (search_url e q) = Inr response"
    and "ok response"
    and "upstream_json response = Inr data"
    and "items data = Some (first # others)"
  shows "getImageFromWeb p (Some name) e =
           \<lparr>status = 200, headers = Headers [(js ''content-type'', js ''application/json'')],
            body = JSON_stringify
                     (JObj [(js ''url'', JStr (link first)),
                            (js ''thumb'', JStr (thumbnailLink (image first)))]) 2\<rparr>
         \<and> status (fetch p req e) = 200
         \<and> body (fetch p req e) =
             [0x7B, 0x0A] @ js ''  \"url\": '' @ QuoteJSONString (link first) @ [0x2C, 0x0A]
               @ js ''  \"thumb\": '' @ QuoteJSONString (thumbnailLink (image first)) @ [0x0A, 0x7D]
         \<and> JSON_parse (NumberText p) (body (fetch p req e)) =
             Some (JObj [(js ''url'', JStr (link first)),
                         (js ''thumb'', JStr (thumbnailLink (image first)))])"
proof -
  let ?v = "JObj [(js ''url'', JStr (link first)), (js ''thumb'', JStr (thumbnailLink (image first)))]"
  have "getImageFromWeb_try p name e = Inr (Response_new (BodyString (JSON_stringify ?v 2)) None json_headers)"
    using assms(4-8) by (simp add: getImageFromWeb_try_def)
  then have resp: "getImageFromWeb p (Some name) e =
           \<lparr>status = 200, headers = Headers [(js ''content-type'', js ''application/json'')],
            body = JSON_stringify ?v 2\<rparr>"
    using assms(3) by (simp add: getImageFromWeb_valid Response_new_json)
  have routed: "status (fetch p req e) = 200" "body (fetch p req e) = JSON_stringify ?v 2"
    using assms(1,2) resp by (simp_all add: fetch_getImage)
  have "JSON_parse (NumberText p) (JSON_stringify ?v 2) = Some ?v"
    using plain_url_thumb by (rule JSON_parse_stringify)
  then show ?thesis
    using resp routed by (simp add: stringify_url_thumb)
qed

theorem first_image_returned_witness:
  "pathname (example_request (js ''/getImage'') [(js ''foodOrIngName'', js ''tomato'')]) = js ''/getImage''
   \<and> map_of (searchParams (example_request (js ''/getImage'') [(js ''foodOrIngName'', js ''tomato'')]))
         (js ''foodOrIngName'') = Some (js ''tomato'')
   \<and> js ''tomato'' \<noteq> []
   \<and> encodeURIComponent
         (example_platform (Inl NonError)
            (Inr (example_answer 200 (Some [example_item (js ''http://a'') (js ''http://b'')]))))
         (js ''tomato'') = Inr (js ''tomato'')
   \<and> node_fetch
         (example_platform (Inl NonError)
            (Inr (example_answer 200 (Some [example_item (js ''http://a'') (js ''http://b'')]))))
         (search_url example_env (js ''tomato'')) =
       Inr (example_answer 200 (Some [example_item (js ''http://a'') (js ''http://b'')]))
   \<and> ok (example_answer 200 (Some [example_item (js ''http://a'') (js ''http://b'')]))
   \<and> upstream_json (example_answer 200 (Some [example_item (js ''http://a'') (js ''http://b'')])) =
       Inr \<lparr>items = Some [example_item (js ''http://a'') (js ''http://b'')]\<rparr>
   \<and> items \<lparr>items = Some [example_item (js ''http://a'') (js ''http://b'')]\<rparr> =
       Some (example_item (js ''http://a'') (js ''http://b'') # [])
   \<and> status (fetch
         (example_platform (Inl NonError)
            (Inr (example_answer 200 (Some [example_item (js ''http://a'') (js ''http://b'')]))))
         (example_request (js ''/getImage'') [(js ''foodOrIngName'', js ''tomato'')]) example_env) = 200
   \<and> body (fetch
         (example_platform (Inl NonError)
            (Inr (example_answer 200 (Some [example_item (js ''http://a'') (js ''http://b'')]))))
         (example_request (js ''/getImage'') [(js ''foodOrIngName'', js ''tomato'')]) example_env) =
       [0x7B, 0x0A] @ js ''  \"url\": \"http://a\",'' @ [0x0A] @ js ''  \"thumb\": \"http://b\"'' @ [0x0A, 0x7D]"
  using first_image_returned
    [of "example_request (js ''/getImage'') [(js ''foodOrIngName'', js ''tomato'')]"
        "js ''tomato''"
        "example_platform (Inl NonError)
            (Inr (example_answer 200 (Some [example_item (js ''http://a'') (js ''http://b'')])))"
        "js ''tomato''" example_env
        "example_answer 200 (Some [example_item (js ''http://a'') (js ''http://b'')])"
        "\<lparr>items = Some [example_item (js ''http://a'') (js ''http://b'')]\<rparr>"
        "example_item (js ''http://a'') (js ''http://b'')" "[]"]
  by (simp add: example_request_def example_platform_def example_answer_def example_item_def
      ok_def stringify_eval)

text \<open>
  C7.  When the completion is not truncated and the message of its first choice carries
  a refusal (a non-empty string), \<open>getRecipeFromAI\<close> returns the error body with the
  message \<open>Model refused to provide a recipe\<close>, whatever the content of the message
  is: the content is not parsed.
\<close>

theorem refused_completion_error:
  assumes "truthy foodName"
    and "openai (recipe_params (string_of foodName)) = Inr chatCompletion"
    and "choices chatCompletion = choice0 # others"
    and "finish_reason choice0 \<noteq> js ''length''"
    and "truthy (refusal (message choice0))"
  shows "getRecipeFromAI p openai foodName =
           \<lparr>status = 200, headers = Headers [(js ''content-type'', js ''application/json'')],
            body = JSON_stringify
                     (JObj [(js ''error'', JStr (js ''Model refused to provide a recipe''))]) 2\<rparr>
         \<and> body (getRecipeFromAI p openai foodName) =
             [0x7B, 0x0A] @ js ''  \"error\": \"Model refused to provide a recipe\"'' @ [0x0A, 0x7D]"
proof -
  have "getRecipeFromAI_try p openai (string_of foodName) =
          Inl (Error (js ''Model refused to provide a recipe''))"
    using assms(2-5) by (simp add: getRecipeFromAI_try_def)
  then have "getRecipeFromAI p openai foodName =
               catch_response (Error (js ''Model refused to provide a recipe''))"
    using assms(1) by (simp add: getRecipeFromAI_valid)
  then show ?thesis
    by (simp add: catch_response_eq error_message_def error_body_text)
qed

theorem refused_completion_error_witness:
  "truthy (Some (js ''lasagna''))
   \<and> (\<lambda>params. Inr (example_completion (js ''stop'') (Some (js ''no'')) (Some (js ''{}''))))
        (recipe_params (string_of (Some (js ''lasagna'')))) =
       Inr (example_completion (js ''stop'') (Some (js ''no'')) (Some (js ''{}'')))
   \<and> choices (example_completion (js ''stop'') (Some (js ''no'')) (Some (js ''{}''))) =
       example_choice (js ''stop'') (Some (js ''no'')) (Some (js ''{}'')) # []
   \<and> finish_reason (example_choice (js ''stop'') (Some (js ''no'')) (Some (js ''{}''))) \<noteq> js ''length''
   \<and> truthy (refusal (message (example_choice (js ''stop'') (Some (js ''no'')) (Some (js ''{}'')))))
   \<and> body (getRecipeFromAI (example_platform (Inl NonError) (Inl NonError))
        (\<lambda>params. Inr (example_completion (js ''stop'') (Some (js ''no'')) (Some (js ''{}''))))
        (Some (js ''lasagna''))) =
       [0x7B, 0x0A] @ js ''  \"error\": \"Model refused to provide a recipe\"'' @ [0x0A, 0x7D]"
  using refused_completion_error
    [of "Some (js ''lasagna'')"
        "\<lambda>params. Inr (example_completion (js ''stop'') (Some (js ''no'')) (Some (js ''{}'')))"
        "example_completion (js ''stop'') (Some (js ''no'')) (Some (js ''{}''))"
        "example_choice (js ''stop'') (Some (js ''no'')) (Some (js ''{}''))" "[]"
        "example_platform (Inl NonError) (Inl NonError)"]
  by (simp add: example_completion_def example_choice_def error_body_text)

text \<open>
  C8.  Every routed response carries the three cross-origin headers (lemma
  \<open>fetch_cors_headers\<close>), but the routed responses with a JSON body do not carry
  \<open>Content-Type: application/json\<close>: the router spreads the \<open>Headers\<close> object of
  the handler's response into an object literal, which copies nothing.  Evaluated at
  \<open>GET /getRecipe\<close> without a query: the handler's response has the content type,
  the routed response has the JSON body and no content type; the response of the variant
  without a router has the content type.
\<close>

theorem routed_json_without_content_type:
  "Headers_get (headers (getRecipeFromAI p openai None)) (js ''Content-Type'') =
       Some (js ''application/json'')
   \<and> body (fetch p (example_request (js ''/getRecipe'') []) e) =
       js ''{\"error\":\"foodName parameter is required\"}''
   \<and> Headers_get (headers (fetch p (example_request (js ''/getRecipe'') []) e))
         (js ''Content-Type'') = None
   \<and> headers (fetch p (example_request (js ''/getRecipe'') []) e) =
       Headers [(js ''access-control-allow-origin'', js ''*''),
                (js ''access-control-allow-methods'', js ''GET,HEAD,POST,OPTIONS''),
                (js ''access-control-allow-headers'', js ''Content-Type'')]
   \<and> Headers_get (headers (fetch_single p (example_request (js ''/getRecipe'') []) e))
         (js ''Content-Type'') = Some (js ''application/json'')"
  by (simp add: fetch_getRecipe getRecipeFromAI_invalid fetch_single_invalid example_request_def
      cors_lower lower_content_type)

text \<open>
  C9.  The same for \<open>GET /getImage\<close> without \<open>foodOrIngName\<close> (or with an empty
  one): the handler's response has status 400, the routed response has status 200 and
  the body the specification gives.
\<close>

theorem getImage_missing_name_routed:
  "status (fetch p (example_request (js ''/getImage'') []) e) = 200
   \<and> body (fetch p (example_request (js ''/getImage'') []) e) =
       js ''{\"error\":\"foodOrIngName parameter is required\"}''
   \<and> status (fetch p (example_request (js ''/getImage'') [(js ''foodOrIngName'', [])]) e) = 200
   \<and> body (fetch p (example_request (js ''/getImage'') [(js ''foodOrIngName'', [])]) e) =
       js ''{\"error\":\"foodOrIngName parameter is required\"}''
   \<and> status (getImageFromWeb p None e) = 400"
  by (simp add: fetch_getImage getImageFromWeb_invalid example_request_def)

text \<open>
  C10.  In the routed variant, every response for the paths \<open>/getRecipe\<close> and
  \<open>/getImage\<close> has status 200, whatever the handler returns: the router builds a new
  response from the handler's body and gives it no status.  This includes the responses
  to which the handlers give the status 400, when the parameter is missing or empty.
\<close>

theorem routed_status_200:
  assumes "pathname req = js ''/getRecipe'' \<or> pathname req = js ''/getImage''"
  shows "status (fetch p req e) = 200
         \<and> status (getRecipeFromAI p openai None) = 400
         \<and> status (getRecipeFromAI p openai (Some [])) = 400
         \<and> status (getImageFromWeb p None e) = 400
         \<and> status (getImageFromWeb p (Some []) e) = 400"
  using assms
  by (auto simp add: fetch_getRecipe fetch_getImage getRecipeFromAI_invalid getImageFromWeb_invalid)

theorem routed_status_200_witness:
  "(pathname (example_request (js ''/getRecipe'') []) = js ''/getRecipe''
      \<or> pathname (example_request (js ''/getRecipe'') []) = js ''/getImage'')
   \<and> status (fetch (example_platform (Inl NonError) (Inl NonError))
                (example_request (js ''/getRecipe'') []) example_env) = 200
   \<and> status (getRecipeFromAI (example_platform (Inl NonError) (Inl NonError))
                (\<lambda>params. Inl NonError) None) = 400"
  using routed_status_200 [of "example_request (js ''/getRecipe'') []"
      "example_platform (Inl NonError) (Inl NonError)" example_env "\<lambda>params. Inl NonError"]
  by (simp add: example_request_def)

end
